theory Spec2Isabelle
  imports Main "HOL-Library.AList" "HOL-Library.List_Lexorder" "HOL-Library.Char_ord"
    "HOL-Library.Sublist"
begin

section \<open>Python dictionaries\<close>

text \<open>
  A Python \<open>dict\<close> is an insertion-ordered association list whose keys are pairwise
  different (\<open>wf_dict\<close>). \<open>d[k] = v\<close> overwrites the value of a key that is present, in
  its place, and appends a new key at the end (\<open>dict_set\<close>); \<open>k in d\<close> is \<open>dict_mem\<close>;
  \<open>d.items()\<close> is the list itself; \<open>not d\<close> holds of the empty dictionary only; and
  \<open>d1 == d2\<close> compares the sizes and then looks every item of \<open>d1\<close> up in \<open>d2\<close>
  (\<open>dict_eq\<close>), whatever the order of insertion.
\<close>

type_synonym ('k, 'v) dict = "('k \<times> 'v) list"

definition wf_dict :: "('k, 'v) dict \<Rightarrow> bool" where
  "wf_dict d = distinct (map fst d)"

definition dict_get :: "('k, 'v) dict \<Rightarrow> 'k \<Rightarrow> 'v option" where
  "dict_get d k = map_of d k"

definition dict_mem :: "'k \<Rightarrow> ('k, 'v) dict \<Rightarrow> bool" where
  "dict_mem k d = (dict_get d k \<noteq> None)"

definition dict_set :: "('k, 'v) dict \<Rightarrow> 'k \<Rightarrow> 'v \<Rightarrow> ('k, 'v) dict" where
  "dict_set d k v = AList.update k v d"

definition dict_eq :: "('k, 'v) dict \<Rightarrow> ('k, 'v) dict \<Rightarrow> bool" where
  "dict_eq d1 d2 =
     (length d1 = length d2 \<and> list_all (\<lambda>(k, v). dict_get d2 k = Some v) d1)"

text \<open>
  A loop that stores \<open>g k v\<close> under \<open>k\<close> for the items \<open>(k, v)\<close> that pass a test \<open>P\<close>: over
  a well-formed dictionary, the result holds exactly the selected keys.
\<close>

definition select_step ::
  "('k \<Rightarrow> 'v \<Rightarrow> bool) \<Rightarrow> ('k \<Rightarrow> 'v \<Rightarrow> 'w) \<Rightarrow> 'k \<times> 'v \<Rightarrow> ('k, 'w) dict \<Rightarrow> ('k, 'w) dict" where
  "select_step P g kv acc =
     (case kv of (k, v) \<Rightarrow> if P k v then dict_set acc k (g k v) else acc)"

section \<open>Diff engine\<close>

text \<open>
  \<^verbatim>\<open>
  def get_added_deps(base_deps, head_deps) -> Dict:
      return {k: v for k, v in head_deps.items() if k not in base_deps}
  \<close>
  A dict comprehension inserts the selected items one after the other into an empty
  dictionary.
\<close>

definition get_added_deps ::
  "(string, string) dict \<Rightarrow> (string, string) dict \<Rightarrow> (string, string) dict" where
  "get_added_deps base_deps head_deps =
     fold (\<lambda>(k, v) acc. if \<not> dict_mem k base_deps then dict_set acc k v else acc)
       head_deps []"

text \<open>
  \<^verbatim>\<open>
  def get_changed_deps(base_deps, head_deps) -> Dict:
      if not base_deps:
          return {}
      data = {}
      for name, version in base_deps.items():
          if name in head_deps and version != head_deps[name]:
              data[name] = {'base': version, 'head': head_deps[name]}
      return data
  \<close>
  The value stored for a changed dependency is a dictionary with the two keys
  \<open>'base'\<close> and \<open>'head'\<close>: the record \<open>change\<close>. The test \<open>name in head_deps\<close> guards both
  reads of \<open>head_deps[name]\<close>, so the lookup is one case distinction.
\<close>

record change =
  base :: string
  head :: string

definition changed_step ::
  "(string, string) dict \<Rightarrow> string \<times> string \<Rightarrow> (string, change) dict \<Rightarrow> (string, change) dict"
  where
  "changed_step head_deps = (\<lambda>(name, version) data.
     (case dict_get head_deps name of
        None \<Rightarrow> data
      | Some hv \<Rightarrow>
          if version \<noteq> hv then dict_set data name \<lparr>base = version, head = hv\<rparr> else data))"

definition get_changed_deps ::
  "(string, string) dict \<Rightarrow> (string, string) dict \<Rightarrow> (string, change) dict" where
  "get_changed_deps base_deps head_deps =
     (if base_deps = [] then [] else fold (changed_step head_deps) base_deps [])"

text \<open>
  \<^verbatim>\<open>
  def get_removed_deps(base_deps, head_deps) -> Dict:
      return {k: v for k, v in base_deps.items() if k not in head_deps}
  \<close>
\<close>

definition get_removed_deps ::
  "(string, string) dict \<Rightarrow> (string, string) dict \<Rightarrow> (string, string) dict" where
  "get_removed_deps base_deps head_deps =
     fold (\<lambda>(k, v) acc. if \<not> dict_mem k head_deps then dict_set acc k v else acc)
       base_deps []"

section \<open>Exceptions and files\<close>

text \<open>
  An exception that is raised becomes a value: a function that can raise returns
  \<open>py_error + 'a\<close>, with \<open>Inl\<close> for the exception. None of the functions below has a
  \<open>try\<close>, so an \<open>Inl\<close> is passed on unchanged by every caller, up to the interpreter,
  which ends the process with exit status 1.

  Reading a JSON file, \<^verbatim>\<open>with open(path) as f: data = json.loads(f.read())\<close>,
  has four outcomes: the file is missing (\<open>FileNotFoundError\<close>), it cannot be read
  (\<open>OSError\<close>), its text is not JSON (\<open>JSONDecodeError\<close>), or it holds a document.
\<close>

datatype py_error =
    KeyError string
  | FileNotFoundError
  | OSError
  | JSONDecodeError
  | GithubException string

datatype 'a file_read = NoSuchFile | Unreadable | NotJson | Json 'a

definition load_json :: "'a file_read \<Rightarrow> py_error + 'a" where
  "load_json f =
     (case f of
        NoSuchFile \<Rightarrow> Inl FileNotFoundError
      | Unreadable \<Rightarrow> Inl OSError
      | NotJson \<Rightarrow> Inl JSONDecodeError
      | Json data \<Rightarrow> Inr data)"

section \<open>Lockfile parser\<close>

text \<open>
  \<^verbatim>\<open>
  def parse_pipfile_lock() -> Dict:
      deps = {}
      with open('Pipfile.lock') as f:
          data = json.loads(f.read())
      for d_type in ('default', 'develop'):
          for name, meta in data[d_type].items():
              if 'version' not in meta and 'ref' in meta:
                  deps[name] = str(meta['ref'][:7])
              else:
                  deps[name] = str(meta['version']).removeprefix('==')
      return deps
  \<close>
  The document of a lockfile maps the name of a group to the group, a group maps the
  name of a dependency to its entry, and an entry maps the name of a field to a
  string: the parser reads the fields \<open>version\<close> and \<open>ref\<close> only, both strings in a
  lockfile, and on a string \<open>str\<close> is the identity. A string is a list of characters,
  so \<open>s[:7]\<close> is \<open>take 7 s\<close>. Reading a key that a dictionary does not hold raises
  \<open>KeyError\<close> with the key.
\<close>

type_synonym meta = "(string, string) dict"
type_synonym lock_doc = "(string, (string, meta) dict) dict"

definition removeprefix :: "string \<Rightarrow> string \<Rightarrow> string" where
  "removeprefix s p = (if prefix p s then drop (length p) s else s)"

text \<open>The value that the body of the inner loop stores under \<open>name\<close>.\<close>

definition entry_version :: "meta \<Rightarrow> py_error + string" where
  "entry_version meta =
     (if \<not> dict_mem ''version'' meta \<and> dict_mem ''ref'' meta then
        (case dict_get meta ''ref'' of
           None \<Rightarrow> Inl (KeyError ''ref'')
         | Some r \<Rightarrow> Inr (take 7 r))
      else
        (case dict_get meta ''version'' of
           None \<Rightarrow> Inl (KeyError ''version'')
         | Some v \<Rightarrow> Inr (removeprefix v ''=='')))"

text \<open>The inner loop, over the items of one group.\<close>

fun parse_items ::
  "(string \<times> meta) list \<Rightarrow> (string, string) dict \<Rightarrow> py_error + (string, string) dict" where
  "parse_items [] deps = Inr deps"
| "parse_items ((name, meta) # rest) deps =
     (case entry_version meta of
        Inl e \<Rightarrow> Inl e
      | Inr v \<Rightarrow> parse_items rest (dict_set deps name v))"

text \<open>The outer loop, over the names of the groups.\<close>

fun parse_groups ::
  "lock_doc \<Rightarrow> string list \<Rightarrow> (string, string) dict \<Rightarrow> py_error + (string, string) dict"
  where
  "parse_groups data [] deps = Inr deps"
| "parse_groups data (d_type # rest) deps =
     (case dict_get data d_type of
        None \<Rightarrow> Inl (KeyError d_type)
      | Some items \<Rightarrow>
          (case parse_items items deps of
             Inl e \<Rightarrow> Inl e
           | Inr deps' \<Rightarrow> parse_groups data rest deps'))"

definition parse_pipfile_lock :: "lock_doc file_read \<Rightarrow> py_error + (string, string) dict" where
  "parse_pipfile_lock f =
     (case load_json f of
        Inl e \<Rightarrow> Inl e
      | Inr data \<Rightarrow> parse_groups data [''default'', ''develop''] [])"

section \<open>Message renderer\<close>

text \<open>
  \<^verbatim>\<open>
  def generate_message(changed: dict, added: dict, removed: dict) -> str:
      msg = '<!-- pipfile-diff -->\n\nDependency changes from `Pipfile.lock`:\n\n'
      if changed:
          txt = '\n'.join(sorted({f'{k} {v["base"]} => {v["head"]}' for k, v in changed.items()}))
          msg += f'**Changed**\n```\n{txt.strip()}\n```\n'
      if added:
          txt = '\n'.join(sorted({f'{k}=={v}' for k, v in added.items()}))
          msg += f'**Added**\n```\n{txt.strip()}\n```\n'
      if removed:
          txt = '\n'.join(sorted({f'{k}=={v}' for k, v in removed.items()}))
          msg += f'**Removed**\n```\n{txt.strip()}\n```\n'
      return msg
  \<close>
  Strings are ordered as Python orders them: lexicographically, character by character,
  by the code of the character, a proper prefix first. \<open>sorted\<close> of a set is the sorted
  list of its elements. \<open>str.strip()\<close> removes the white space at both ends of a string;
  the characters below 256 that Python counts as white space are the codes 9 to 13,
  28 to 32, 133 and 160.
\<close>

definition marker :: string where
  "marker = ''<!-- pipfile-diff -->''"

definition message_header :: string where
  "message_header = marker @ ''\<newline>\<newline>Dependency changes from `Pipfile.lock`:\<newline>\<newline>''"

definition py_isspace :: "char \<Rightarrow> bool" where
  "py_isspace c =
     (let n = (of_char c :: nat)
      in (9 \<le> n \<and> n \<le> 13) \<or> (28 \<le> n \<and> n \<le> 32) \<or> n = 133 \<or> n = 160)"

definition strip :: "string \<Rightarrow> string" where
  "strip s = rev (dropWhile py_isspace (rev (dropWhile py_isspace s)))"

fun join :: "string \<Rightarrow> string list \<Rightarrow> string" where
  "join sep [] = []"
| "join sep [x] = x"
| "join sep (x # y # ys) = x @ sep @ join sep (y # ys)"

definition changed_line :: "string \<times> change \<Rightarrow> string" where
  "changed_line = (\<lambda>(k, v). k @ '' '' @ base v @ '' => '' @ head v)"

definition pinned_line :: "string \<times> string \<Rightarrow> string" where
  "pinned_line = (\<lambda>(k, v). k @ ''=='' @ v)"

definition section_text :: "string \<Rightarrow> string \<Rightarrow> string" where
  "section_text title txt =
     ''**'' @ title @ ''**\<newline>```\<newline>'' @ strip txt @ ''\<newline>```\<newline>''"

definition generate_message ::
  "(string, change) dict \<Rightarrow> (string, string) dict \<Rightarrow> (string, string) dict \<Rightarrow> string" where
  "generate_message changed added removed =
     (let msg = message_header;
          msg = (if changed \<noteq> [] then
                   (let txt = join ''\<newline>'' (sorted_list_of_set (set (map changed_line changed)))
                    in msg @ section_text ''Changed'' txt)
                 else msg);
          msg = (if added \<noteq> [] then
                   (let txt = join ''\<newline>'' (sorted_list_of_set (set (map pinned_line added)))
                    in msg @ section_text ''Added'' txt)
                 else msg);
          msg = (if removed \<noteq> [] then
                   (let txt = join ''\<newline>'' (sorted_list_of_set (set (map pinned_line removed)))
                    in msg @ section_text ''Removed'' txt)
                 else msg)
      in msg)"

section \<open>The process and its surroundings\<close>

text \<open>
  What the program reads but never changes is a \<open>sys\<close>: the environment variables, the
  \<open>git\<close> executable (from the command line and the working tree to the exit status and
  the new working tree; what \<open>git\<close> does is not this program's to decide, so it is a
  parameter), the lockfile a working tree holds, the event payloads by path (only the
  integer fields of a payload are read), the failures of the hosting service by
  request, and the identifier the service gives to a new comment. What a run changes
  is a \<open>world\<close>: the working tree, the lines printed, the requests sent to the hosting
  service, and the comments of the pull request.
\<close>

record comment =
  comment_id :: int
  body :: string

datatype api_call =
    GetRepo string string
  | GetPull int
  | GetIssueComments
  | GetIssueComment int
  | EditComment int string
  | CreateIssueComment string

record 't sys =
  environ :: "string \<Rightarrow> string option"
  git :: "string list \<Rightarrow> 't \<Rightarrow> int \<times> 't"
  pipfile_lock :: "'t \<Rightarrow> lock_doc file_read"
  event_file :: "string \<Rightarrow> (string \<Rightarrow> int option) file_read"
  api_fault :: "api_call \<Rightarrow> py_error option"
  new_comment_id :: "comment list \<Rightarrow> int"

record 't world =
  tree :: 't
  stdout :: "string list"
  api_log :: "api_call list"
  comments :: "comment list"

text \<open>
  A statement is a function from the world to its result, an exception or a value, and
  the world it leaves. \<open>and_then\<close> runs a statement and, unless it raised, the rest.
\<close>

type_synonym ('t, 'a) prog = "'t world \<Rightarrow> (py_error + 'a) \<times> 't world"

definition ret :: "'a \<Rightarrow> ('t, 'a) prog" where
  "ret x w = (Inr x, w)"

definition lift :: "py_error + 'a \<Rightarrow> ('t, 'a) prog" where
  "lift r w = (r, w)"

definition and_then :: "('t, 'a) prog \<Rightarrow> ('a \<Rightarrow> ('t, 'b) prog) \<Rightarrow> ('t, 'b) prog" where
  "and_then m f w =
     (case m w of
        (Inl e, w') \<Rightarrow> (Inl e, w')
      | (Inr x, w') \<Rightarrow> f x w')"

definition print :: "string \<Rightarrow> ('t, unit) prog" where
  "print s w = (Inr (), w\<lparr>stdout := stdout w @ [s]\<rparr>)"

text \<open>\<open>os.environ[k]\<close> raises \<open>KeyError\<close> when the variable is not set.\<close>

definition getenv :: "'t sys \<Rightarrow> string \<Rightarrow> ('t, string) prog" where
  "getenv sys k =
     lift (case environ sys k of None \<Rightarrow> Inl (KeyError k) | Some v \<Rightarrow> Inr v)"

text \<open>
  \<^verbatim>\<open>subprocess.run(args, stdout=subprocess.PIPE)\<close> runs the command and returns
  its exit status in the completed process. It is called without \<open>check=True\<close>, so it
  raises for no exit status. The \<open>git\<close> executable is taken to be installed.
\<close>

definition subprocess_run :: "'t sys \<Rightarrow> string list \<Rightarrow> ('t, int) prog" where
  "subprocess_run sys args w =
     (case git sys args (tree w) of (returncode, t) \<Rightarrow> (Inr returncode, w\<lparr>tree := t\<rparr>))"

text \<open>A request to the hosting service is recorded, and raises when the service fails it.\<close>

definition api :: "'t sys \<Rightarrow> api_call \<Rightarrow> ('t, unit) prog" where
  "api sys call w =
     (case api_fault sys call of
        Some e \<Rightarrow> Inl e
      | None \<Rightarrow> Inr (),
      w\<lparr>api_log := api_log w @ [call]\<rparr>)"

section \<open>Comment upsert client\<close>

text \<open>
  \<^verbatim>\<open>
  def create_comment(message: str) -> None:
      with open(os.environ['GITHUB_EVENT_PATH']) as f:
          event_data = f.read()
      event_data = json.loads(event_data)
      g = Github(os.environ['INPUT_REPO-TOKEN'])
      repo = g.get_repo(os.environ['GITHUB_REPOSITORY'])
      pull = repo.get_pull(int(event_data['number']))
      existing_issue_id = None
      for c in pull.get_issue_comments():
          if c.body.startswith('<!-- pipfile-diff -->'):
              existing_issue_id = c.id
              break
      if existing_issue_id:
          comment = pull.get_issue_comment(existing_issue_id)
          comment.edit(message)
      else:
          pull.create_issue_comment(message)
  \<close>
  The loop leaves in \<open>existing_issue_id\<close> the identifier of the first comment whose body
  starts with the marker, or \<open>None\<close>. The test \<open>if existing_issue_id\<close> is Python's truth
  value of it: false for \<open>None\<close> and for the integer 0.

  The hosting service: editing a comment replaces the body of the comment that has the
  identifier, and creating one appends a comment with the identifier the service
  chooses.
\<close>

fun find_marked :: "comment list \<Rightarrow> int option" where
  "find_marked [] = None"
| "find_marked (c # cs) = (if prefix marker (body c) then Some (comment_id c) else find_marked cs)"

definition truthy :: "int option \<Rightarrow> bool" where
  "truthy x = (case x of None \<Rightarrow> False | Some i \<Rightarrow> i \<noteq> 0)"

definition get_issue_comments :: "'t sys \<Rightarrow> ('t, comment list) prog" where
  "get_issue_comments sys = and_then (api sys GetIssueComments) (\<lambda>_ w. (Inr (comments w), w))"

definition edit :: "'t sys \<Rightarrow> int \<Rightarrow> string \<Rightarrow> ('t, unit) prog" where
  "edit sys i message =
     and_then (api sys (EditComment i message)) (\<lambda>_ w.
       (Inr (),
        w\<lparr>comments :=
            map (\<lambda>c. if comment_id c = i then c\<lparr>body := message\<rparr> else c) (comments w)\<rparr>))"

definition create_issue_comment :: "'t sys \<Rightarrow> string \<Rightarrow> ('t, unit) prog" where
  "create_issue_comment sys message =
     and_then (api sys (CreateIssueComment message)) (\<lambda>_ w.
       (Inr (),
        w\<lparr>comments :=
            comments w @ [\<lparr>comment_id = new_comment_id sys (comments w), body = message\<rparr>]\<rparr>))"

definition create_comment :: "'t sys \<Rightarrow> string \<Rightarrow> ('t, unit) prog" where
  "create_comment sys message =
     and_then (getenv sys ''GITHUB_EVENT_PATH'') (\<lambda>path.
     and_then (lift (load_json (event_file sys path))) (\<lambda>event_data.
     and_then (getenv sys ''INPUT_REPO-TOKEN'') (\<lambda>token.
     and_then (getenv sys ''GITHUB_REPOSITORY'') (\<lambda>repository.
     and_then (api sys (GetRepo token repository)) (\<lambda>_.
     and_then (lift (case event_data ''number'' of
                       None \<Rightarrow> Inl (KeyError ''number'')
                     | Some n \<Rightarrow> Inr n)) (\<lambda>number.
     and_then (api sys (GetPull number)) (\<lambda>_.
     and_then (get_issue_comments sys) (\<lambda>cs.
       (let existing_issue_id = find_marked cs
        in if truthy existing_issue_id then
             and_then (api sys (GetIssueComment (the existing_issue_id))) (\<lambda>_.
               edit sys (the existing_issue_id) message)
           else create_issue_comment sys message)))))))))"

section \<open>Orchestrator\<close>

text \<open>
  \<^verbatim>\<open>
  def run():
      print('Running `git fetch origin --no-tags --prune --unshallow`')
      subprocess.run(['git', 'fetch', 'origin', os.environ['GITHUB_BASE_REF'],
                      '--no-tags', '--prune', '--unshallow'], stdout=subprocess.PIPE)
      base_sha = os.environ['INPUT_BASE-SHA']
      print(f'Checking out base revision {base_sha}')
      subprocess.run(['git', 'checkout', base_sha], stdout=subprocess.PIPE)
      base_deps = parse_pipfile_lock()
      head_sha = os.environ['INPUT_HEAD-SHA']
      print(f'Checking out head revision {head_sha}')
      subprocess.run(['git', 'checkout', head_sha], stdout=subprocess.PIPE)
      head_deps = parse_pipfile_lock()
      if head_deps == base_deps:
          print('No dependency changes.')
          return
      changed_deps = get_changed_deps(base_deps, head_deps)
      added_deps = get_added_deps(base_deps, head_deps)
      removed_deps = get_removed_deps(base_deps, head_deps)
      msg = generate_message(changed_deps, added_deps, removed_deps)
      create_comment(msg)
  \<close>
  \<open>parse_pipfile_lock()\<close> reads the lockfile of the working tree as it is when it is
  called. The process ends with exit status 0 when \<open>run\<close> returns and with 1 when an
  exception leaves it.
\<close>

definition read_lock :: "'t sys \<Rightarrow> ('t, (string, string) dict) prog" where
  "read_lock sys w = (parse_pipfile_lock (pipfile_lock sys (tree w)), w)"

definition fetch_args :: "string \<Rightarrow> string list" where
  "fetch_args base_ref =
     [''git'', ''fetch'', ''origin'', base_ref, ''--no-tags'', ''--prune'', ''--unshallow'']"

definition checkout_args :: "string \<Rightarrow> string list" where
  "checkout_args sha = [''git'', ''checkout'', sha]"

definition run :: "'t sys \<Rightarrow> ('t, unit) prog" where
  "run sys =
     and_then (print ''Running `git fetch origin --no-tags --prune --unshallow`'') (\<lambda>_.
     and_then (getenv sys ''GITHUB_BASE_REF'') (\<lambda>base_ref.
     and_then (subprocess_run sys (fetch_args base_ref)) (\<lambda>_.
     and_then (getenv sys ''INPUT_BASE-SHA'') (\<lambda>base_sha.
     and_then (print (''Checking out base revision '' @ base_sha)) (\<lambda>_.
     and_then (subprocess_run sys (checkout_args base_sha)) (\<lambda>_.
     and_then (read_lock sys) (\<lambda>base_deps.
     and_then (getenv sys ''INPUT_HEAD-SHA'') (\<lambda>head_sha.
     and_then (print (''Checking out head revision '' @ head_sha)) (\<lambda>_.
     and_then (subprocess_run sys (checkout_args head_sha)) (\<lambda>_.
     and_then (read_lock sys) (\<lambda>head_deps.
       if dict_eq head_deps base_deps then
         and_then (print ''No dependency changes.'') (\<lambda>_. ret ())
       else
         (let changed_deps = get_changed_deps base_deps head_deps;
              added_deps = get_added_deps base_deps head_deps;
              removed_deps = get_removed_deps base_deps head_deps;
              msg = generate_message changed_deps added_deps removed_deps
          in create_comment sys msg))))))))))))"

definition exit_status :: "py_error + unit \<Rightarrow> int" where
  "exit_status r = (case r of Inl e \<Rightarrow> 1 | Inr u \<Rightarrow> 0)"

text \<open>The messages that the requests of a log ask the service to post or to edit in.\<close>

fun posted :: "api_call list \<Rightarrow> string list" where
  "posted [] = []"
| "posted (EditComment i m # cs) = m # posted cs"
| "posted (CreateIssueComment m # cs) = m # posted cs"
| "posted (c # cs) = posted cs"

section \<open>An example run\<close>

text \<open>
  A pull request whose base revision pins \<open>foo\<close> to 1.0.0 and whose head revision pins it
  to 2.0.0. The working tree is the name of the revision that is checked out, and is
  the base revision when the run starts. The clone is complete: \<open>git fetch --unshallow\<close>
  fails on it with exit status 128 and leaves the working tree as it is. The base
  revision is not known under the name the action is given (a failing checkout leaves
  the working tree as it is as well and exits with 1); the checkout of \<open>head\<close> succeeds.
\<close>

definition example_base_doc :: lock_doc where
  "example_base_doc =
     [(''default'', [(''foo'', [(''version'', ''==1.0.0'')])]), (''develop'', [])]"

definition example_head_doc :: lock_doc where
  "example_head_doc =
     [(''default'', [(''foo'', [(''version'', ''==2.0.0'')])]), (''develop'', [])]"

definition example_git :: "string list \<Rightarrow> string \<Rightarrow> int \<times> string" where
  "example_git args t =
     (if args = checkout_args ''head'' then (0, ''head'')
      else if args = fetch_args ''main'' then (128, t)
      else (1, t))"

definition example_sys :: "string sys" where
  "example_sys =
     \<lparr>environ = map_of
        [(''GITHUB_BASE_REF'', ''main''), (''INPUT_BASE-SHA'', ''unknown''),
         (''INPUT_HEAD-SHA'', ''head''), (''GITHUB_EVENT_PATH'', ''/event.json''),
         (''INPUT_REPO-TOKEN'', ''token''), (''GITHUB_REPOSITORY'', ''owner/name'')],
      git = example_git,
      pipfile_lock = (\<lambda>t. if t = ''base'' then Json example_base_doc
                          else if t = ''head'' then Json example_head_doc
                          else NoSuchFile),
      event_file = (\<lambda>path. if path = ''/event.json'' then Json (map_of [(''number'', 7)])
                           else NoSuchFile),
      api_fault = (\<lambda>call. None),
      new_comment_id = (\<lambda>cs. int (length cs) + 1)\<rparr>"

definition example_world :: "string world" where
  "example_world = \<lparr>tree = ''base'', stdout = [], api_log = [], comments = []\<rparr>"

definition example_message :: string where
  "example_message =
     ''<!-- pipfile-diff -->\<newline>\<newline>Dependency changes from `Pipfile.lock`:\<newline>\<newline>'' @
     ''**Changed**\<newline>```\<newline>foo 1.0.0 => 2.0.0\<newline>```\<newline>''"

section \<open>Facts about dictionaries\<close>

lemma dict_get_set: "dict_get (dict_set d k v) k' = (if k' = k then Some v else dict_get d k')"
  by (simp add: dict_get_def dict_set_def update_conv')

lemma wf_dict_set: "wf_dict d \<Longrightarrow> wf_dict (dict_set d k v)"
  by (simp add: wf_dict_def dict_set_def distinct_update)

lemma dict_set_not_empty: "dict_set d k v \<noteq> []"
  by (cases d) (simp_all add: dict_set_def)

lemma wf_dict_Cons: "wf_dict ((k, v) # d) \<longleftrightarrow> dict_get d k = None \<and> wf_dict d"
  by (auto simp: wf_dict_def dict_get_def map_of_eq_None_iff)

lemma dict_get_Cons: "dict_get ((k, v) # d) k' = (if k' = k then Some v else dict_get d k')"
  by (simp add: dict_get_def)

lemma select_step_pair:
  "select_step P g (k, v) acc = (if P k v then dict_set acc k (g k v) else acc)"
  by (simp add: select_step_def)

lemma wf_fold_select: "wf_dict acc \<Longrightarrow> wf_dict (fold (select_step P g) xs acc)"
  by (induction xs arbitrary: acc) (auto simp: select_step_pair wf_dict_set)

lemma dict_get_fold_select:
  "wf_dict xs \<Longrightarrow>
   dict_get (fold (select_step P g) xs acc) k =
     (case dict_get xs k of
        None \<Rightarrow> dict_get acc k
      | Some v \<Rightarrow> if P k v then Some (g k v) else dict_get acc k)"
proof (induction xs arbitrary: acc)
  case Nil
  then show ?case by (simp add: dict_get_def)
next
  case (Cons x xs)
  obtain k' v' where x: "x = (k', v')" by (cases x)
  from Cons.prems x have none: "dict_get xs k' = None" and wf: "wf_dict xs"
    by (simp_all add: wf_dict_Cons)
  have IH: "dict_get (fold (select_step P g) xs acc') k =
      (case dict_get xs k of
         None \<Rightarrow> dict_get acc' k
       | Some v \<Rightarrow> if P k v then Some (g k v) else dict_get acc' k)" for acc'
    by (rule Cons.IH [OF wf])
  show ?case
  proof (cases "k = k'")
    case True
    with none show ?thesis
      by (simp add: x IH [unfolded True] dict_get_Cons select_step_pair dict_get_set)
  next
    case False
    then show ?thesis
      by (simp add: x IH dict_get_Cons select_step_pair dict_get_set split: option.splits)
  qed
qed

section \<open>Facts about the diff engine\<close>

lemma added_as_select:
  "get_added_deps base_deps head_deps =
     fold (select_step (\<lambda>k v. \<not> dict_mem k base_deps) (\<lambda>k v. v)) head_deps []"
proof -
  have eq: "(\<lambda>(k, v) acc. if \<not> dict_mem k base_deps then dict_set acc k v else acc) =
        select_step (\<lambda>k v. \<not> dict_mem k base_deps) (\<lambda>k v. v)"
    by (auto simp: fun_eq_iff select_step_def)
  show ?thesis by (simp only: get_added_deps_def eq)
qed

lemma removed_as_select:
  "get_removed_deps base_deps head_deps =
     fold (select_step (\<lambda>k v. \<not> dict_mem k head_deps) (\<lambda>k v. v)) base_deps []"
proof -
  have eq: "(\<lambda>(k, v) acc. if \<not> dict_mem k head_deps then dict_set acc k v else acc) =
        select_step (\<lambda>k v. \<not> dict_mem k head_deps) (\<lambda>k v. v)"
    by (auto simp: fun_eq_iff select_step_def)
  show ?thesis by (simp only: get_removed_deps_def eq)
qed

lemma changed_step_as_select:
  "changed_step head_deps =
     select_step (\<lambda>k v. dict_get head_deps k \<noteq> None \<and> dict_get head_deps k \<noteq> Some v)
       (\<lambda>k v. \<lparr>base = v, head = the (dict_get head_deps k)\<rparr>)"
  by (auto simp: changed_step_def select_step_def fun_eq_iff split: option.splits)

lemma dict_get_added:
  "wf_dict head_deps \<Longrightarrow>
   dict_get (get_added_deps base_deps head_deps) k =
     (if dict_mem k base_deps then None else dict_get head_deps k)"
  by (simp add: added_as_select dict_get_fold_select dict_get_def [of "[]"]
      split: option.splits)

lemma dict_get_removed:
  "wf_dict base_deps \<Longrightarrow>
   dict_get (get_removed_deps base_deps head_deps) k =
     (if dict_mem k head_deps then None else dict_get base_deps k)"
  by (simp add: removed_as_select dict_get_fold_select dict_get_def [of "[]"]
      split: option.splits)

lemma dict_get_changed:
  "wf_dict base_deps \<Longrightarrow>
   dict_get (get_changed_deps base_deps head_deps) k =
     (case dict_get base_deps k of
        None \<Rightarrow> None
      | Some bv \<Rightarrow>
          (case dict_get head_deps k of
             None \<Rightarrow> None
           | Some hv \<Rightarrow> if bv \<noteq> hv then Some \<lparr>base = bv, head = hv\<rparr> else None))"
  by (auto simp: get_changed_deps_def changed_step_as_select dict_get_fold_select
      dict_get_def [of "[]"] split: option.splits)

section \<open>Facts about the parser\<close>



lemma entry_version_ok:
  "dict_mem ''version'' meta \<or> dict_mem ''ref'' meta \<Longrightarrow> \<exists>v. entry_version meta = Inr v"
  by (auto simp: entry_version_def dict_mem_def)

lemma parse_items_wf:
  "wf_dict deps \<Longrightarrow> parse_items items deps = Inr deps' \<Longrightarrow> wf_dict deps'"
  by (induction items deps rule: parse_items.induct)
    (auto simp: wf_dict_set split: sum.splits)

lemma parse_items_get:
  "wf_dict items \<Longrightarrow> parse_items items deps = Inr deps' \<Longrightarrow>
   map_option Inr (dict_get deps' n) =
     (case dict_get items n of
        None \<Rightarrow> map_option Inr (dict_get deps n)
      | Some meta \<Rightarrow> Some (entry_version meta))"
proof (induction items deps rule: parse_items.induct)
  case (1 deps)
  then show ?case by (simp add: dict_get_def)
next
  case (2 name meta rest deps)
  from "2.prems" obtain v where v: "entry_version meta = Inr v"
    and rest: "parse_items rest (dict_set deps name v) = Inr deps'"
    by (auto split: sum.splits)
  from "2.prems" have none: "dict_get rest name = None" and wf: "wf_dict rest"
    by (simp_all add: wf_dict_Cons)
  note IH = "2.IH" [OF v wf rest]
  show ?case
  proof (cases "n = name")
    case True
    with IH none v show ?thesis by (simp add: dict_get_Cons dict_get_set)
  next
    case False
    with IH show ?thesis by (simp add: dict_get_Cons dict_get_set split: option.splits)
  qed
qed

lemma parse_items_ok:
  "list_all (\<lambda>(name, meta). dict_mem ''version'' meta \<or> dict_mem ''ref'' meta) items \<Longrightarrow>
   \<exists>deps'. parse_items items deps = Inr deps'"
proof (induction items deps rule: parse_items.induct)
  case (1 deps)
  then show ?case by simp
next
  case (2 name meta rest deps)
  from "2.prems" obtain v where v: "entry_version meta = Inr v"
    using entry_version_ok [of meta] by auto
  from "2.prems" "2.IH" [OF v] v show ?case by simp
qed

lemma parse_pipfile_lock_Json:
  "dict_get data ''default'' = Some dflt \<Longrightarrow> dict_get data ''develop'' = Some dev \<Longrightarrow>
   parse_pipfile_lock (Json data) =
     (case parse_items dflt [] of Inl e \<Rightarrow> Inl e | Inr deps \<Rightarrow> parse_items dev deps)"
  by (simp add: parse_pipfile_lock_def load_json_def split: sum.splits)

lemma parse_groups_wf:
  "wf_dict deps \<Longrightarrow> parse_groups data names deps = Inr deps' \<Longrightarrow> wf_dict deps'"
  by (induction data names deps rule: parse_groups.induct)
    (auto split: option.splits sum.splits dest: parse_items_wf)

lemma parse_pipfile_lock_wf: "parse_pipfile_lock f = Inr deps \<Longrightarrow> wf_dict deps"
proof -
  assume ok: "parse_pipfile_lock f = Inr deps"
  then obtain data where "parse_groups data [''default'', ''develop''] [] = Inr deps"
    by (cases "load_json f") (simp_all add: parse_pipfile_lock_def)
  moreover have "wf_dict ([] :: (string, string) dict)"
    by (simp add: wf_dict_def)
  ultimately show "wf_dict deps"
    by (rule parse_groups_wf [rotated])
qed

section \<open>Facts about dictionary equality\<close>

lemma wf_dict_get_iff: "wf_dict d \<Longrightarrow> dict_get d k = Some v \<longleftrightarrow> (k, v) \<in> set d"
  by (simp add: wf_dict_def dict_get_def)

lemma wf_dict_length: "wf_dict d \<Longrightarrow> length d = card (dom (dict_get d))"
proof -
  assume "wf_dict d"
  then have "card (set (map fst d)) = length (map fst d)"
    unfolding wf_dict_def by (rule distinct_card)
  moreover have "dom (dict_get d) = set (map fst d)"
    by (simp add: dict_get_def [abs_def] dom_map_of_conv_image_fst)
  ultimately show ?thesis by simp
qed

lemma dict_eq_iff:
  assumes "wf_dict d1" and "wf_dict d2"
  shows "dict_eq d1 d2 \<longleftrightarrow> (\<forall>k. dict_get d1 k = dict_get d2 k)"
proof
  assume eq: "dict_eq d1 d2"
  then have items: "dict_get d2 k = Some v" if "dict_get d1 k = Some v" for k v
    using that assms(1) by (auto simp: dict_eq_def list_all_iff wf_dict_get_iff)
  then have sub: "dom (dict_get d1) \<subseteq> dom (dict_get d2)"
    by auto
  from eq assms have "card (dom (dict_get d1)) = card (dom (dict_get d2))"
    by (simp add: dict_eq_def wf_dict_length)
  moreover have "finite (dom (dict_get d2))"
    by (simp add: dict_get_def [abs_def] finite_dom_map_of)
  ultimately have doms: "dom (dict_get d1) = dom (dict_get d2)"
    using sub by (simp add: card_subset_eq)
  show "\<forall>k. dict_get d1 k = dict_get d2 k"
  proof
    fix k
    show "dict_get d1 k = dict_get d2 k"
    proof (cases "dict_get d1 k")
      case None
      then have "k \<notin> dom (dict_get d1)" by (simp add: domIff)
      with doms have "k \<notin> dom (dict_get d2)" by simp
      with None show ?thesis by (simp add: domIff)
    next
      case (Some v)
      with items show ?thesis by simp
    qed
  qed
next
  assume "\<forall>k. dict_get d1 k = dict_get d2 k"
  then have same: "dict_get d1 = dict_get d2" by auto
  with assms have "length d1 = length d2"
    by (simp add: wf_dict_length)
  moreover have "list_all (\<lambda>(k, v). dict_get d2 k = Some v) d1"
    using assms(1) by (auto simp: list_all_iff same [symmetric] wf_dict_get_iff)
  ultimately show "dict_eq d1 d2" by (simp add: dict_eq_def)
qed

lemma dict_get_Some_not_empty: "dict_get d k = Some v \<Longrightarrow> d \<noteq> []"
  by (auto simp: dict_get_def)

lemma diff_not_empty:
  assumes "wf_dict base_deps" and "wf_dict head_deps"
    and "\<not> (\<forall>k. dict_get head_deps k = dict_get base_deps k)"
  shows "get_changed_deps base_deps head_deps \<noteq> [] \<or>
    get_added_deps base_deps head_deps \<noteq> [] \<or>
    get_removed_deps base_deps head_deps \<noteq> []"
proof -
  from assms(3) obtain k where k: "dict_get head_deps k \<noteq> dict_get base_deps k" by auto
  show ?thesis
  proof (cases "dict_get base_deps k")
    case None
    with k obtain v where "dict_get head_deps k = Some v" by auto
    with None have "dict_get (get_added_deps base_deps head_deps) k = Some v"
      by (simp add: dict_get_added [OF assms(2)] dict_mem_def)
    then show ?thesis by (auto dest: dict_get_Some_not_empty)
  next
    case (Some bv)
    show ?thesis
    proof (cases "dict_get head_deps k")
      case None
      with Some have "dict_get (get_removed_deps base_deps head_deps) k = Some bv"
        by (simp add: dict_get_removed [OF assms(1)] dict_mem_def)
      then show ?thesis by (auto dest: dict_get_Some_not_empty)
    next
      case (Some hv)
      with \<open>dict_get base_deps k = Some bv\<close> k
      have "dict_get (get_changed_deps base_deps head_deps) k = Some \<lparr>base = bv, head = hv\<rparr>"
        by (simp add: dict_get_changed [OF assms(1)])
      then show ?thesis by (auto dest: dict_get_Some_not_empty)
    qed
  qed
qed

section \<open>Facts about the rendered message\<close>

text \<open>\<open>strip\<close> changes nothing in a text that neither starts nor ends with white space.\<close>

lemma strip_id:
  assumes "s \<noteq> []" and "\<not> py_isspace (hd s)" and "\<not> py_isspace (last s)"
  shows "strip s = s"
proof -
  from assms(1,2) have front: "dropWhile py_isspace s = s"
    by (cases s) simp_all
  from assms(1,3) have "dropWhile py_isspace (rev s) = rev s"
    by (cases "rev s") (simp_all add: hd_rev [symmetric])
  with front show ?thesis by (simp add: strip_def)
qed

lemma generate_message_sections:
  "generate_message changed added removed =
     message_header @
     (if changed = [] then []
      else section_text ''Changed''
        (join ''\<newline>'' (sorted_list_of_set (set (map changed_line changed))))) @
     (if added = [] then []
      else section_text ''Added''
        (join ''\<newline>'' (sorted_list_of_set (set (map pinned_line added))))) @
     (if removed = [] then []
      else section_text ''Removed''
        (join ''\<newline>'' (sorted_list_of_set (set (map pinned_line removed)))))"
  by (simp add: generate_message_def Let_def)

lemma sublist_section_text: "sublist (''**'' @ title @ ''**'') (pre @ section_text title txt @ post)"
proof -
  have "pre @ section_text title txt @ post =
      pre @ (''**'' @ title @ ''**'') @ (''\<newline>```\<newline>'' @ strip txt @ ''\<newline>```\<newline>'' @ post)"
    by (simp add: section_text_def)
  then show ?thesis
    unfolding sublist_def by blast
qed

lemma section_text_not_empty: "section_text title txt \<noteq> []"
  by (simp add: section_text_def)

lemma generate_message_has_section:
  assumes "changed \<noteq> [] \<or> added \<noteq> [] \<or> removed \<noteq> []"
  shows "generate_message changed added removed \<noteq> message_header \<and>
    (sublist ''**Changed**'' (generate_message changed added removed) \<or>
     sublist ''**Added**'' (generate_message changed added removed) \<or>
     sublist ''**Removed**'' (generate_message changed added removed))"
proof -
  let ?c = "join ''\<newline>'' (sorted_list_of_set (set (map changed_line changed)))"
  let ?a = "join ''\<newline>'' (sorted_list_of_set (set (map pinned_line added)))"
  let ?r = "join ''\<newline>'' (sorted_list_of_set (set (map pinned_line removed)))"
  have ne: "generate_message changed added removed \<noteq> message_header"
    using assms by (auto simp: generate_message_sections section_text_not_empty)
  have "sublist ''**Changed**'' (generate_message changed added removed)" if "changed \<noteq> []"
    using that sublist_section_text [of "''Changed''" message_header ?c]
    by (simp only: generate_message_sections if_False) simp
  moreover
  have "sublist ''**Added**'' (generate_message changed added removed)" if "added \<noteq> []"
  proof -
    have "sublist (''**'' @ ''Added'' @ ''**'')
        ((message_header @ (if changed = [] then [] else section_text ''Changed'' ?c)) @
          section_text ''Added'' ?a @
          (if removed = [] then [] else section_text ''Removed'' ?r))"
      by (rule sublist_section_text)
    with that show ?thesis
      by (simp only: generate_message_sections if_False append_assoc) simp
  qed
  moreover
  have "sublist ''**Removed**'' (generate_message changed added removed)" if "removed \<noteq> []"
  proof -
    have "sublist (''**'' @ ''Removed'' @ ''**'')
        ((message_header @ (if changed = [] then [] else section_text ''Changed'' ?c) @
          (if added = [] then [] else section_text ''Added'' ?a)) @
          section_text ''Removed'' ?r @ [])"
      by (rule sublist_section_text)
    with that show ?thesis
      by (simp only: generate_message_sections if_False append_assoc append_Nil2) simp
  qed
  ultimately show ?thesis using assms ne by blast
qed

section \<open>Facts about statements\<close>

lemma and_then_Inr: "m w = (Inr x, w') \<Longrightarrow> and_then m f w = f x w'"
  by (simp add: and_then_def)

lemma and_then_Inl: "m w = (Inl e, w') \<Longrightarrow> and_then m f w = (Inl e, w')"
  by (simp add: and_then_def)

lemma and_then_print: "and_then (print s) f w = f () (w\<lparr>stdout := stdout w @ [s]\<rparr>)"
  by (simp add: and_then_def print_def)

lemma and_then_getenv:
  "and_then (getenv sys k) f w =
     (case environ sys k of None \<Rightarrow> (Inl (KeyError k), w) | Some v \<Rightarrow> f v w)"
  by (simp add: and_then_def getenv_def lift_def split: option.splits)

lemma and_then_lift:
  "and_then (lift r) f w = (case r of Inl e \<Rightarrow> (Inl e, w) | Inr x \<Rightarrow> f x w)"
  by (simp add: and_then_def lift_def split: sum.splits)

lemma and_then_subprocess_run:
  "and_then (subprocess_run sys args) (\<lambda>_. k) w = k (w\<lparr>tree := snd (git sys args (tree w))\<rparr>)"
  by (simp add: and_then_def subprocess_run_def split: prod.splits)

lemma and_then_read_lock:
  "and_then (read_lock sys) f w =
     (case parse_pipfile_lock (pipfile_lock sys (tree w)) of
        Inl e \<Rightarrow> (Inl e, w)
      | Inr deps \<Rightarrow> f deps w)"
  by (simp add: and_then_def read_lock_def split: sum.splits)

lemma and_then_api:
  "and_then (api sys call) f w =
     (case api_fault sys call of
        Some e \<Rightarrow> (Inl e, w\<lparr>api_log := api_log w @ [call]\<rparr>)
      | None \<Rightarrow> f () (w\<lparr>api_log := api_log w @ [call]\<rparr>))"
  by (simp add: and_then_def api_def split: option.splits)

lemma and_then_get_issue_comments:
  "and_then (get_issue_comments sys) f w =
     (case api_fault sys GetIssueComments of
        Some e \<Rightarrow> (Inl e, w\<lparr>api_log := api_log w @ [GetIssueComments]\<rparr>)
      | None \<Rightarrow> f (comments w) (w\<lparr>api_log := api_log w @ [GetIssueComments]\<rparr>))"
  by (simp add: and_then_def get_issue_comments_def api_def split: option.splits)

lemma edit_eq:
  "edit sys i message w =
     (case api_fault sys (EditComment i message) of
        Some e \<Rightarrow> (Inl e, w\<lparr>api_log := api_log w @ [EditComment i message]\<rparr>)
      | None \<Rightarrow>
          (Inr (),
           w\<lparr>api_log := api_log w @ [EditComment i message],
             comments :=
               map (\<lambda>c. if comment_id c = i then c\<lparr>body := message\<rparr> else c) (comments w)\<rparr>))"
  by (simp add: edit_def and_then_def api_def split: option.splits)

lemma create_issue_comment_eq:
  "create_issue_comment sys message w =
     (case api_fault sys (CreateIssueComment message) of
        Some e \<Rightarrow> (Inl e, w\<lparr>api_log := api_log w @ [CreateIssueComment message]\<rparr>)
      | None \<Rightarrow>
          (Inr (),
           w\<lparr>api_log := api_log w @ [CreateIssueComment message],
             comments :=
               comments w @
               [\<lparr>comment_id = new_comment_id sys (comments w), body = message\<rparr>]\<rparr>))"
  by (simp add: create_issue_comment_def and_then_def api_def split: option.splits)

lemmas and_then_simps =
  and_then_print and_then_getenv and_then_lift and_then_subprocess_run and_then_read_lock
  and_then_api and_then_get_issue_comments

lemma find_marked_find:
  "find_marked cs = map_option comment_id (find (\<lambda>c. prefix marker (body c)) cs)"
  by (induction cs) simp_all

lemma posted_append: "posted (xs @ ys) = posted xs @ posted ys"
  by (induction xs rule: posted.induct) simp_all

text \<open>What \<open>create_comment\<close> sends: at most one request that posts, and it posts the message.\<close>

lemma create_comment_log:
  "\<exists>calls. api_log (snd (create_comment sys message w)) = api_log w @ calls \<and>
     set (posted calls) \<subseteq> {message}"
  by (simp add: create_comment_def and_then_simps edit_eq create_issue_comment_eq Let_def
      split: option.splits sum.splits)

text \<open>The run without the lookups of the environment, when the variables are set.\<close>

lemma run_unfold:
  assumes "environ sys ''GITHUB_BASE_REF'' = Some base_ref"
    and "environ sys ''INPUT_BASE-SHA'' = Some base_sha"
    and "environ sys ''INPUT_HEAD-SHA'' = Some head_sha"
    and "t1 = snd (git sys (checkout_args base_sha) (snd (git sys (fetch_args base_ref) (tree w))))"
    and "t2 = snd (git sys (checkout_args head_sha) t1)"
    and "out1 = stdout w @ [''Running `git fetch origin --no-tags --prune --unshallow`'',
          ''Checking out base revision '' @ base_sha]"
    and "out2 = out1 @ [''Checking out head revision '' @ head_sha]"
  shows "run sys w =
     (case parse_pipfile_lock (pipfile_lock sys t1) of
        Inl e \<Rightarrow> (Inl e, w\<lparr>stdout := out1, tree := t1\<rparr>)
      | Inr base_deps \<Rightarrow>
         (case parse_pipfile_lock (pipfile_lock sys t2) of
            Inl e \<Rightarrow> (Inl e, w\<lparr>stdout := out2, tree := t2\<rparr>)
          | Inr head_deps \<Rightarrow>
              if dict_eq head_deps base_deps then
                (Inr (), w\<lparr>stdout := out2 @ [''No dependency changes.''], tree := t2\<rparr>)
              else
                create_comment sys
                  (generate_message (get_changed_deps base_deps head_deps)
                     (get_added_deps base_deps head_deps)
                     (get_removed_deps base_deps head_deps))
                  (w\<lparr>stdout := out2, tree := t2\<rparr>)))"
  by (simp add: run_def and_then_simps assms ret_def Let_def split: sum.splits)

section \<open>Facts about the upsert client\<close>

lemma find_Some_set: "find P xs = Some x \<Longrightarrow> x \<in> set xs \<and> P x"
  by (induction xs) (auto split: if_splits)

lemma find_after_edit:
  "find (\<lambda>c. prefix marker (body c)) cs = Some c \<Longrightarrow> prefix marker message \<Longrightarrow>
   \<exists>c'. find (\<lambda>c. prefix marker (body c))
          (map (\<lambda>x. if comment_id x = comment_id c then x\<lparr>body := message\<rparr> else x) cs) =
        Some c' \<and> comment_id c' = comment_id c \<and> body c' = message"
  by (induction cs) (auto split: if_splits)

lemma find_after_create:
  "find P cs = None \<Longrightarrow> P new \<Longrightarrow> find P (cs @ [new]) = Some new"
  by (induction cs) (auto split: if_splits)

lemma map_comment_id_edit:
  "map comment_id (map (\<lambda>x. if comment_id x = i then x\<lparr>body := message\<rparr> else x) cs) =
   map comment_id cs"
  by (induction cs) auto

text \<open>
  When the variables are set, the event payload has a number and the service fails no
  request, \<open>create_comment\<close> returns, after an edit of the first marked comment or after
  the creation of a comment.
\<close>

lemma create_comment_ok:
  assumes "environ sys ''GITHUB_EVENT_PATH'' = Some path"
    and "event_file sys path = Json event"
    and "event ''number'' = Some number"
    and "environ sys ''INPUT_REPO-TOKEN'' = Some token"
    and "environ sys ''GITHUB_REPOSITORY'' = Some repository"
    and "\<forall>call. api_fault sys call = None"
    and "\<forall>c \<in> set (comments w). comment_id c \<noteq> 0"
  shows "create_comment sys message w =
     (Inr (),
      (case find (\<lambda>c. prefix marker (body c)) (comments w) of
         Some c \<Rightarrow>
           w\<lparr>api_log := api_log w @
                [GetRepo token repository, GetPull number, GetIssueComments,
                 GetIssueComment (comment_id c), EditComment (comment_id c) message],
             comments :=
               map (\<lambda>x. if comment_id x = comment_id c then x\<lparr>body := message\<rparr> else x)
                 (comments w)\<rparr>
       | None \<Rightarrow>
           w\<lparr>api_log := api_log w @
                [GetRepo token repository, GetPull number, GetIssueComments,
                 CreateIssueComment message],
             comments :=
               comments w @
               [\<lparr>comment_id = new_comment_id sys (comments w), body = message\<rparr>]\<rparr>))"
proof (cases "find (\<lambda>c. prefix marker (body c)) (comments w)")
  case None
  then show ?thesis
    by (simp add: create_comment_def and_then_simps create_issue_comment_eq Let_def
        find_marked_find truthy_def load_json_def assms)
next
  case (Some c)
  with assms(7) have "comment_id c \<noteq> 0"
    by (auto dest: find_Some_set)
  with Some show ?thesis
    by (simp add: create_comment_def and_then_simps edit_eq Let_def
        find_marked_find truthy_def load_json_def assms)
qed

section \<open>Facts about the orchestrator\<close>

text \<open>The requests of a run: the comment it posts, if any, has a section.\<close>

lemma run_log:
  "\<exists>calls. api_log (snd (run sys w)) = api_log w @ calls \<and>
     (\<forall>m \<in> set (posted calls).
        m \<noteq> message_header \<and>
        (sublist ''**Changed**'' m \<or> sublist ''**Added**'' m \<or> sublist ''**Removed**'' m))"
proof -
  have post: "\<exists>calls.
      api_log (snd (create_comment sys
        (generate_message (get_changed_deps b h) (get_added_deps b h) (get_removed_deps b h))
        w')) = api_log w @ calls \<and>
      (\<forall>m \<in> set (posted calls).
         m \<noteq> message_header \<and>
         (sublist ''**Changed**'' m \<or> sublist ''**Added**'' m \<or> sublist ''**Removed**'' m))"
    if b: "parse_pipfile_lock f1 = Inr b" and h: "parse_pipfile_lock f2 = Inr h"
      and ne: "\<not> dict_eq h b" and log: "api_log w' = api_log w"
    for b h f1 f2 and w' :: "'a world"
  proof -
    let ?m = "generate_message (get_changed_deps b h) (get_added_deps b h) (get_removed_deps b h)"
    from b h have wf: "wf_dict b" "wf_dict h"
      by (auto dest: parse_pipfile_lock_wf)
    with ne have "\<not> (\<forall>k. dict_get h k = dict_get b k)"
      by (simp add: dict_eq_iff)
    with wf have "get_changed_deps b h \<noteq> [] \<or> get_added_deps b h \<noteq> [] \<or>
        get_removed_deps b h \<noteq> []"
      by (rule diff_not_empty)
    then have ok: "?m \<noteq> message_header \<and>
        (sublist ''**Changed**'' ?m \<or> sublist ''**Added**'' ?m \<or> sublist ''**Removed**'' ?m)"
      by (rule generate_message_has_section)
    from create_comment_log [of sys ?m w'] obtain calls
      where "api_log (snd (create_comment sys ?m w')) = api_log w' @ calls"
        and "set (posted calls) \<subseteq> {?m}"
      by blast
    with ok log show ?thesis by auto
  qed
  show ?thesis
    by (auto simp: run_def and_then_simps ret_def Let_def post
        split: option.splits sum.splits)
qed

text \<open>The exit status of a \<open>git\<close> command is not read.\<close>

lemma api_git: "api (sys\<lparr>git := g\<rparr>) call = api sys call"
  by (rule ext) (simp add: api_def)

lemma edit_git: "edit (sys\<lparr>git := g\<rparr>) i message = edit sys i message"
  by (simp add: edit_def api_git)

lemma create_issue_comment_git:
  "create_issue_comment (sys\<lparr>git := g\<rparr>) message = create_issue_comment sys message"
  by (simp add: create_issue_comment_def api_git)

lemma create_comment_git: "create_comment (sys\<lparr>git := g\<rparr>) message = create_comment sys message"
  by (simp add: create_comment_def getenv_def api_git get_issue_comments_def edit_git
      create_issue_comment_git Let_def cong: if_cong)

lemma run_git:
  assumes "\<forall>args t. snd (g args t) = snd (git sys args t)"
  shows "run (sys\<lparr>git := g\<rparr>) w = run sys w"
  by (simp add: run_def and_then_simps ret_def Let_def create_comment_git assms
      split: option.splits sum.splits)

text \<open>The example run, and the example with the same lockfile at both revisions.\<close>

lemma example_parse:
  "parse_pipfile_lock (Json example_base_doc) = Inr [(''foo'', ''1.0.0'')]"
  "parse_pipfile_lock (Json example_head_doc) = Inr [(''foo'', ''2.0.0'')]"
  by (simp_all add: parse_pipfile_lock_def load_json_def example_base_doc_def
      example_head_doc_def dict_get_def dict_set_def entry_version_def dict_mem_def
      removeprefix_def)

lemma example_generate_message:
  "generate_message (get_changed_deps [(''foo'', ''1.0.0'')] [(''foo'', ''2.0.0'')])
     (get_added_deps [(''foo'', ''1.0.0'')] [(''foo'', ''2.0.0'')])
     (get_removed_deps [(''foo'', ''1.0.0'')] [(''foo'', ''2.0.0'')]) = example_message"
proof -
  have "strip ''foo 1.0.0 => 2.0.0'' = ''foo 1.0.0 => 2.0.0''"
    by (simp add: strip_def py_isspace_def)
  then show ?thesis
    by (simp add: generate_message_def get_changed_deps_def changed_step_def
        get_added_deps_def get_removed_deps_def dict_mem_def dict_get_def dict_set_def
        changed_line_def section_text_def message_header_def marker_def example_message_def)
qed

lemma example_env:
  "environ example_sys ''GITHUB_BASE_REF'' = Some ''main''"
  "environ example_sys ''INPUT_BASE-SHA'' = Some ''unknown''"
  "environ example_sys ''INPUT_HEAD-SHA'' = Some ''head''"
  "environ example_sys ''GITHUB_EVENT_PATH'' = Some ''/event.json''"
  "environ example_sys ''INPUT_REPO-TOKEN'' = Some ''token''"
  "environ example_sys ''GITHUB_REPOSITORY'' = Some ''owner/name''"
  by (simp_all add: example_sys_def)

lemma example_trees:
  "snd (git example_sys (checkout_args ''unknown'')
     (snd (git example_sys (fetch_args ''main'') ''base''))) = ''base''"
  "snd (git example_sys (checkout_args ''head'') ''base'') = ''head''"
  by (simp_all add: example_sys_def example_git_def checkout_args_def fetch_args_def)

lemma example_locks:
  "pipfile_lock example_sys ''base'' = Json example_base_doc"
  "pipfile_lock example_sys ''head'' = Json example_head_doc"
  by (simp_all add: example_sys_def)

lemma example_run:
  "run example_sys example_world =
     (Inr (),
      \<lparr>tree = ''head'',
       stdout = [''Running `git fetch origin --no-tags --prune --unshallow`'',
                 ''Checking out base revision unknown'',
                 ''Checking out head revision head''],
       api_log = [GetRepo ''token'' ''owner/name'', GetPull 7, GetIssueComments,
                  CreateIssueComment example_message],
       comments = [\<lparr>comment_id = 1, body = example_message\<rparr>]\<rparr>)"
proof -
  have ne: "\<not> dict_eq [(''foo'', ''2.0.0'')] [(''foo'', ''1.0.0'')]"
    by (simp add: dict_eq_def dict_get_def)
  have cc: "create_comment example_sys message
      \<lparr>tree = ''head'', stdout = out, api_log = [], comments = []\<rparr> =
      (Inr (),
       \<lparr>tree = ''head'', stdout = out,
        api_log = [GetRepo ''token'' ''owner/name'', GetPull 7, GetIssueComments,
                   CreateIssueComment message],
        comments = [\<lparr>comment_id = 1, body = message\<rparr>]\<rparr>)" for message out
    by (subst create_comment_ok [where path = "''/event.json''" and number = 7
          and event = "map_of [(''number'', 7)]" and token = "''token''"
          and repository = "''owner/name''"])
      (simp_all add: example_sys_def example_world_def)
  show ?thesis
    by (subst run_unfold [OF example_env(1-3) refl refl refl refl])
      (simp add: example_trees example_locks example_parse ne example_generate_message cc
        example_world_def)
qed

section \<open>Claims about the diff engine\<close>

text \<open>
  C6. For all mappings, \<open>added(base, head)\<close> equals \<open>removed(head, base)\<close>: the two
  functions are the same up to the order of their arguments, and the result maps
  exactly the keys that are present in the second argument only, each to its version
  there.
\<close>

theorem added_removed_symmetric:
  "get_added_deps base_deps head_deps = get_removed_deps head_deps base_deps \<and>
   (wf_dict head_deps \<longrightarrow>
      wf_dict (get_added_deps base_deps head_deps) \<and>
      (\<forall>k. dict_get (get_added_deps base_deps head_deps) k =
         (if dict_mem k base_deps then None else dict_get head_deps k)))"
proof (intro conjI impI allI)
  show "get_added_deps base_deps head_deps = get_removed_deps head_deps base_deps"
    by (simp only: get_added_deps_def get_removed_deps_def)
  show "wf_dict (get_added_deps base_deps head_deps)"
    by (simp only: added_as_select) (rule wf_fold_select, simp add: wf_dict_def)
  fix k
  assume "wf_dict head_deps"
  then show "dict_get (get_added_deps base_deps head_deps) k =
      (if dict_mem k base_deps then None else dict_get head_deps k)"
    by (rule dict_get_added)
qed

theorem added_removed_symmetric_witness:
  "wf_dict [(''foo'', ''1.0.0''), (''bar'', ''3.0.0'')] \<and>
   get_added_deps [(''foo'', ''1.0.0'')] [(''foo'', ''1.0.0''), (''bar'', ''3.0.0'')] =
     get_removed_deps [(''foo'', ''1.0.0''), (''bar'', ''3.0.0'')] [(''foo'', ''1.0.0'')] \<and>
   dict_get (get_added_deps [(''foo'', ''1.0.0'')] [(''foo'', ''1.0.0''), (''bar'', ''3.0.0'')])
     ''bar'' = Some ''3.0.0'' \<and>
   dict_get (get_added_deps [(''foo'', ''1.0.0'')] [(''foo'', ''1.0.0''), (''bar'', ''3.0.0'')])
     ''foo'' = None"
proof -
  let ?B = "[(''foo'', ''1.0.0'')]"
  let ?H = "[(''foo'', ''1.0.0''), (''bar'', ''3.0.0'')]"
  have wf: "wf_dict ?H" by (simp add: wf_dict_def)
  from added_removed_symmetric [of ?B ?H] wf
  have eq: "get_added_deps ?B ?H = get_removed_deps ?H ?B"
    and get: "dict_get (get_added_deps ?B ?H) k =
      (if dict_mem k ?B then None else dict_get ?H k)" for k
    by blast+
  have "dict_get (get_added_deps ?B ?H) ''bar'' = Some ''3.0.0''"
    and "dict_get (get_added_deps ?B ?H) ''foo'' = None"
    unfolding get by (simp_all add: dict_mem_def dict_get_def)
  with wf eq show ?thesis by blast
qed

text \<open>
  C3. \<open>changed(base, head)\<close> holds exactly the keys that are present in both mappings
  with different version strings, each mapped to the pair of its base and its head
  version; and it is empty whenever \<open>base\<close> is empty, whatever \<open>head\<close> is.
\<close>

theorem changed_exact:
  "get_changed_deps [] head_deps = [] \<and>
   (wf_dict base_deps \<longrightarrow>
      wf_dict (get_changed_deps base_deps head_deps) \<and>
      (\<forall>k. dict_get (get_changed_deps base_deps head_deps) k =
         (case (dict_get base_deps k, dict_get head_deps k) of
            (Some bv, Some hv) \<Rightarrow> if bv \<noteq> hv then Some \<lparr>base = bv, head = hv\<rparr> else None
          | _ \<Rightarrow> None)))"
proof (intro conjI impI allI)
  show "get_changed_deps [] head_deps = []"
    by (simp add: get_changed_deps_def)
  show "wf_dict (get_changed_deps base_deps head_deps)"
    by (simp add: get_changed_deps_def changed_step_as_select wf_fold_select
        wf_dict_def [of "[]"])
  fix k
  assume "wf_dict base_deps"
  then show "dict_get (get_changed_deps base_deps head_deps) k =
      (case (dict_get base_deps k, dict_get head_deps k) of
         (Some bv, Some hv) \<Rightarrow> if bv \<noteq> hv then Some \<lparr>base = bv, head = hv\<rparr> else None
       | _ \<Rightarrow> None)"
    by (simp add: dict_get_changed split: option.splits)
qed

theorem changed_exact_witness:
  "wf_dict [(''foo'', ''1.0.0''), (''bar'', ''3.0.0'')] \<and>
   get_changed_deps [(''foo'', ''1.0.0''), (''bar'', ''3.0.0'')]
     [(''bar'', ''3.0.0''), (''foo'', ''2.0.0''), (''baz'', ''0.1'')] =
     [(''foo'', \<lparr>base = ''1.0.0'', head = ''2.0.0''\<rparr>)] \<and>
   dict_get (get_changed_deps [(''foo'', ''1.0.0''), (''bar'', ''3.0.0'')]
     [(''bar'', ''3.0.0''), (''foo'', ''2.0.0''), (''baz'', ''0.1'')]) ''foo'' =
     Some \<lparr>base = ''1.0.0'', head = ''2.0.0''\<rparr> \<and>
   dict_get (get_changed_deps [(''foo'', ''1.0.0''), (''bar'', ''3.0.0'')]
     [(''bar'', ''3.0.0''), (''foo'', ''2.0.0''), (''baz'', ''0.1'')]) ''bar'' = None"
proof -
  let ?B = "[(''foo'', ''1.0.0''), (''bar'', ''3.0.0'')]"
  let ?H = "[(''bar'', ''3.0.0''), (''foo'', ''2.0.0''), (''baz'', ''0.1'')]"
  have wf: "wf_dict ?B" by (simp add: wf_dict_def)
  from changed_exact [of ?H ?B] wf
  have get: "dict_get (get_changed_deps ?B ?H) k =
      (case (dict_get ?B k, dict_get ?H k) of
         (Some bv, Some hv) \<Rightarrow> if bv \<noteq> hv then Some \<lparr>base = bv, head = hv\<rparr> else None
       | _ \<Rightarrow> None)" for k
    by blast
  have "dict_get (get_changed_deps ?B ?H) ''foo'' = Some \<lparr>base = ''1.0.0'', head = ''2.0.0''\<rparr>"
    and "dict_get (get_changed_deps ?B ?H) ''bar'' = None"
    unfolding get by (simp_all add: dict_get_def)
  moreover have "get_changed_deps ?B ?H = [(''foo'', \<lparr>base = ''1.0.0'', head = ''2.0.0''\<rparr>)]"
    by (simp add: get_changed_deps_def changed_step_def dict_get_def dict_set_def)
  ultimately show ?thesis using wf by blast
qed

section \<open>Claims about the parser\<close>



text \<open>
  C8. The parser merges the groups \<open>default\<close> and \<open>develop\<close> into one mapping keyed by
  the name of the dependency: a name of \<open>develop\<close> gets the descriptor of its entry
  there, also when \<open>default\<close> has the name too, and the other names of \<open>default\<close> get
  the descriptor of their entry in \<open>default\<close>. The parser returns for every lockfile
  that has the two groups and whose entries all have a \<open>version\<close> or a \<open>ref\<close> field.
\<close>

theorem develop_overrides_default:
  assumes "dict_get data ''default'' = Some dflt"
    and "dict_get data ''develop'' = Some dev"
    and "wf_dict dflt" and "wf_dict dev"
    and "list_all (\<lambda>(name, meta). dict_mem ''version'' meta \<or> dict_mem ''ref'' meta) (dflt @ dev)"
  shows "\<exists>deps. parse_pipfile_lock (Json data) = Inr deps \<and> wf_dict deps \<and>
     (\<forall>name. map_option Inr (dict_get deps name) =
        (case dict_get dev name of
           Some meta \<Rightarrow> Some (entry_version meta)
         | None \<Rightarrow> map_option entry_version (dict_get dflt name)))"
proof -
  from assms(5) obtain d1 where d1: "parse_items dflt [] = Inr d1"
    using parse_items_ok [of dflt "[]"] by auto
  from assms(5) obtain d2 where d2: "parse_items dev d1 = Inr d2"
    using parse_items_ok [of dev d1] by auto
  have parse: "parse_pipfile_lock (Json data) = Inr d2"
    by (simp add: parse_pipfile_lock_Json [OF assms(1,2)] d1 d2)
  have g1: "map_option Inr (dict_get d1 n) = map_option entry_version (dict_get dflt n)" for n
    using parse_items_get [OF assms(3) d1, of n]
    by (simp add: dict_get_def [of "[]"] split: option.splits)
  have g2: "map_option Inr (dict_get d2 n) =
      (case dict_get dev n of
         Some meta \<Rightarrow> Some (entry_version meta)
       | None \<Rightarrow> map_option entry_version (dict_get dflt n))" for n
    using parse_items_get [OF assms(4) d2, of n] g1 [of n]
    by (simp split: option.splits)
  from parse parse_pipfile_lock_wf [OF parse] g2 show ?thesis by blast
qed

theorem develop_overrides_default_witness:
  "parse_pipfile_lock
     (Json [(''_meta'', []),
            (''default'', [(''foo'', [(''version'', ''==1.0.0'')]),
                           (''bar'', [(''version'', ''==3.0.0'')])]),
            (''develop'', [(''foo'', [(''ref'', ''0123456789abcdef'')]),
                           (''baz'', [(''version'', ''==0.1'')])])]) =
     Inr [(''foo'', ''0123456''), (''bar'', ''3.0.0''), (''baz'', ''0.1'')]"
proof -
  let ?dflt = "[(''foo'', [(''version'', ''==1.0.0'')]), (''bar'', [(''version'', ''==3.0.0'')])]"
  let ?dev = "[(''foo'', [(''ref'', ''0123456789abcdef'')]), (''baz'', [(''version'', ''==0.1'')])]"
  let ?data = "[(''_meta'', []), (''default'', ?dflt), (''develop'', ?dev)]"
  have "\<exists>deps. parse_pipfile_lock (Json ?data) = Inr deps"
    using develop_overrides_default [of ?data ?dflt ?dev]
    by (simp add: dict_get_def wf_dict_def dict_mem_def) blast
  moreover have "parse_pipfile_lock (Json ?data) =
      Inr [(''foo'', ''0123456''), (''bar'', ''3.0.0''), (''baz'', ''0.1'')] \<or>
    (\<forall>deps. parse_pipfile_lock (Json ?data) \<noteq> Inr deps)"
    by (simp add: parse_pipfile_lock_def load_json_def dict_get_def dict_set_def
        entry_version_def dict_mem_def removeprefix_def)
  ultimately show ?thesis by blast
qed

section \<open>Claims about the renderer\<close>

text \<open>
  C5, as stated: the rendered message is the marker line, the header, and then the
  sections Changed, Added and Removed in this order, each one only if its mapping is
  not empty, and a section holds the lines of its mapping (\<open>name base => head\<close> for a
  changed dependency, \<open>name==version\<close> for an added or a removed one), taken as a set,
  sorted and joined with newlines. The mapping of added dependencies that pins the name
  \<open>" x"\<close>, which starts with a space, to the version 1 refutes it: the line of the entry
  is \<open>" x==1"\<close>, and the Added section of the message holds \<open>"x==1"\<close>.
\<close>

theorem message_lines_counterexample:
  "pinned_line ('' x'', ''1'') = '' x==1'' \<and>
   generate_message [] [('' x'', ''1'')] [] =
     ''<!-- pipfile-diff -->\<newline>\<newline>Dependency changes from `Pipfile.lock`:\<newline>\<newline>'' @
     ''**Added**\<newline>```\<newline>x==1\<newline>```\<newline>'' \<and>
   generate_message [] [('' x'', ''1'')] [] \<noteq>
     ''<!-- pipfile-diff -->\<newline>\<newline>Dependency changes from `Pipfile.lock`:\<newline>\<newline>'' @
     ''**Added**\<newline>```\<newline> x==1\<newline>```\<newline>''"
proof -
  have s: "strip '' x==1'' = ''x==1''"
    by (simp add: strip_def py_isspace_def)
  have m: "generate_message [] [('' x'', ''1'')] [] =
      ''<!-- pipfile-diff -->\<newline>\<newline>Dependency changes from `Pipfile.lock`:\<newline>\<newline>'' @
      ''**Added**\<newline>```\<newline>x==1\<newline>```\<newline>''"
    by (simp add: generate_message_def pinned_line_def section_text_def message_header_def
        marker_def s)
  show ?thesis
    unfolding m by (simp add: pinned_line_def)
qed

text \<open>
  C5, as amended: the rendered message is the marker line \<open><!-- pipfile-diff -->\<close>, the
  header, and then the sections Changed, Added and Removed in this order, each one
  present exactly when its mapping is not empty. The lines of a section
  (\<open>name base => head\<close> for a changed dependency, \<open>name==version\<close> for an added or a
  removed one) are taken as a set, sorted (strings are compared character by character)
  and joined with newlines, and the white space at the two ends of the joined text is
  stripped before the text is put between the fences. The lists \<open>ls_changed\<close>, \<open>ls_added\<close>
  and \<open>ls_removed\<close> below are the sorted lists without repetition of the three sets of
  lines; there is exactly one such list for each set.
\<close>

theorem message_layout:
  assumes "sorted ls_changed" and "distinct ls_changed"
    and "set ls_changed = (\<lambda>(k, v). k @ '' '' @ base v @ '' => '' @ head v) ` set changed"
    and "sorted ls_added" and "distinct ls_added"
    and "set ls_added = (\<lambda>(k, v). k @ ''=='' @ v) ` set added"
    and "sorted ls_removed" and "distinct ls_removed"
    and "set ls_removed = (\<lambda>(k, v). k @ ''=='' @ v) ` set removed"
  shows "generate_message changed added removed =
     ''<!-- pipfile-diff -->\<newline>'' @
     ''\<newline>Dependency changes from `Pipfile.lock`:\<newline>\<newline>'' @
     (if changed = [] then []
      else ''**Changed**\<newline>```\<newline>'' @ strip (join ''\<newline>'' ls_changed) @ ''\<newline>```\<newline>'') @
     (if added = [] then []
      else ''**Added**\<newline>```\<newline>'' @ strip (join ''\<newline>'' ls_added) @ ''\<newline>```\<newline>'') @
     (if removed = [] then []
      else ''**Removed**\<newline>```\<newline>'' @ strip (join ''\<newline>'' ls_removed) @ ''\<newline>```\<newline>'')"
proof -
  have c: "sorted_list_of_set (changed_line ` set changed) = ls_changed"
    using sorted_list_of_set.idem_if_sorted_distinct [OF assms(1,2)] assms(3)
    by (simp add: changed_line_def)
  have a: "sorted_list_of_set (pinned_line ` set added) = ls_added"
    using sorted_list_of_set.idem_if_sorted_distinct [OF assms(4,5)] assms(6)
    by (simp add: pinned_line_def)
  have r: "sorted_list_of_set (pinned_line ` set removed) = ls_removed"
    using sorted_list_of_set.idem_if_sorted_distinct [OF assms(7,8)] assms(9)
    by (simp add: pinned_line_def)
  show ?thesis
    by (simp add: generate_message_def Let_def c a r section_text_def message_header_def
        marker_def)
qed

theorem message_layout_witness:
  "generate_message [(''foo'', \<lparr>base = ''1.0.0'', head = ''2.0.0''\<rparr>)] []
     [(''b'', ''1''), (''a'', ''=2''), (''a='', ''2'')] =
   ''<!-- pipfile-diff -->\<newline>\<newline>Dependency changes from `Pipfile.lock`:\<newline>\<newline>'' @
   ''**Changed**\<newline>```\<newline>foo 1.0.0 => 2.0.0\<newline>```\<newline>'' @
   ''**Removed**\<newline>```\<newline>a===2\<newline>b==1\<newline>```\<newline>''"
proof -
  have s1: "strip ''foo 1.0.0 => 2.0.0'' = ''foo 1.0.0 => 2.0.0''"
    by (simp add: strip_def py_isspace_def)
  have s2: "strip ''a===2\<newline>b==1'' = ''a===2\<newline>b==1''"
    by (simp add: strip_def py_isspace_def)
  have le: "''a===2'' \<le> ''b==1''"
    by simp
  show ?thesis
    using message_layout [where ls_changed = "[''foo 1.0.0 => 2.0.0'']"
        and changed = "[(''foo'', \<lparr>base = ''1.0.0'', head = ''2.0.0''\<rparr>)]"
        and ls_added = "[]" and added = "[]" and ls_removed = "[''a===2'', ''b==1'']"
        and removed = "[(''b'', ''1''), (''a'', ''=2''), (''a='', ''2'')]"] le
    by (simp add: s1 s2 insert_commute)
qed

section \<open>Claims about the upsert client\<close>

text \<open>
  C4. Given the comments of the pull request, the client edits the first comment whose
  body starts with the marker \<open><!-- pipfile-diff -->\<close>: it sends one edit request, for the
  identifier of that comment, and no create request, and the comments keep their
  identifiers. Only when no comment starts with the marker does it create a comment,
  with the message as its body. A run that follows a run with a marked message finds
  a marked comment, edits it and creates none, so the marked comments do not pile up.
  The client is given the variables of its environment, an event payload with the
  number of the pull request and a service that fails no request and gives no comment
  the identifier 0.
\<close>

theorem upsert_comment:
  assumes "environ sys ''GITHUB_EVENT_PATH'' = Some path"
    and "event_file sys path = Json event"
    and "event ''number'' = Some number"
    and "environ sys ''INPUT_REPO-TOKEN'' = Some token"
    and "environ sys ''GITHUB_REPOSITORY'' = Some repository"
    and "\<forall>call. api_fault sys call = None"
    and "\<forall>c \<in> set (comments w). comment_id c \<noteq> 0"
    and "\<forall>cs. new_comment_id sys cs \<noteq> 0"
    and "w1 = snd (create_comment sys message w)"
    and "w2 = snd (create_comment sys message2 w1)"
    and "requests = [GetRepo token repository, GetPull number, GetIssueComments]"
  shows "fst (create_comment sys message w) = Inr () \<and>
    (case find (\<lambda>c. prefix ''<!-- pipfile-diff -->'' (body c)) (comments w) of
       Some c \<Rightarrow>
         api_log w1 = api_log w @ requests @
           [GetIssueComment (comment_id c), EditComment (comment_id c) message] \<and>
         comments w1 =
           map (\<lambda>x. if comment_id x = comment_id c then x\<lparr>body := message\<rparr> else x)
             (comments w) \<and>
         map comment_id (comments w1) = map comment_id (comments w)
     | None \<Rightarrow>
         api_log w1 = api_log w @ requests @ [CreateIssueComment message] \<and>
         comments w1 =
           comments w @ [\<lparr>comment_id = new_comment_id sys (comments w), body = message\<rparr>]) \<and>
    (prefix ''<!-- pipfile-diff -->'' message \<longrightarrow>
       (\<exists>c. find (\<lambda>c. prefix ''<!-- pipfile-diff -->'' (body c)) (comments w1) = Some c \<and>
          body c = message \<and>
          fst (create_comment sys message2 w1) = Inr () \<and>
          api_log w2 = api_log w1 @ requests @
            [GetIssueComment (comment_id c), EditComment (comment_id c) message2] \<and>
          map comment_id (comments w2) = map comment_id (comments w1)))"
proof -
  let ?P = "\<lambda>c. prefix marker (body c)"
  note first = create_comment_ok [OF assms(1-7), of message]
  have w1: "w1 =
      (case find ?P (comments w) of
         Some c \<Rightarrow>
           w\<lparr>api_log := api_log w @ requests @
                [GetIssueComment (comment_id c), EditComment (comment_id c) message],
             comments :=
               map (\<lambda>x. if comment_id x = comment_id c then x\<lparr>body := message\<rparr> else x)
                 (comments w)\<rparr>
       | None \<Rightarrow>
           w\<lparr>api_log := api_log w @ requests @ [CreateIssueComment message],
             comments :=
               comments w @
               [\<lparr>comment_id = new_comment_id sys (comments w), body = message\<rparr>]\<rparr>)"
    by (simp add: assms(9,11) first split: option.splits)
  have ids1: "\<forall>c \<in> set (comments w1). comment_id c \<noteq> 0"
    using assms(7,8) by (auto simp: w1 split: option.splits)
  note second = create_comment_ok [OF assms(1-6) ids1, of message2]
  have A: "fst (create_comment sys message w) = Inr ()"
    by (simp add: first)
  have B: "(case find (\<lambda>c. prefix ''<!-- pipfile-diff -->'' (body c)) (comments w) of
       Some c \<Rightarrow>
         api_log w1 = api_log w @ requests @
           [GetIssueComment (comment_id c), EditComment (comment_id c) message] \<and>
         comments w1 =
           map (\<lambda>x. if comment_id x = comment_id c then x\<lparr>body := message\<rparr> else x)
             (comments w) \<and>
         map comment_id (comments w1) = map comment_id (comments w)
     | None \<Rightarrow>
         api_log w1 = api_log w @ requests @ [CreateIssueComment message] \<and>
         comments w1 =
           comments w @ [\<lparr>comment_id = new_comment_id sys (comments w), body = message\<rparr>])"
    by (simp add: w1 marker_def [symmetric] map_comment_id_edit split: option.splits)
  have C: "\<exists>c. find (\<lambda>c. prefix ''<!-- pipfile-diff -->'' (body c)) (comments w1) = Some c \<and>
        body c = message \<and>
        fst (create_comment sys message2 w1) = Inr () \<and>
        api_log w2 = api_log w1 @ requests @
          [GetIssueComment (comment_id c), EditComment (comment_id c) message2] \<and>
        map comment_id (comments w2) = map comment_id (comments w1)"
    if marked: "prefix ''<!-- pipfile-diff -->'' message"
  proof -
    from marked have m: "prefix marker message" by (simp add: marker_def)
    have "\<exists>c. find ?P (comments w1) = Some c \<and> body c = message"
    proof (cases "find ?P (comments w)")
      case None
      then show ?thesis
        using find_after_create [of ?P "comments w"
            "\<lparr>comment_id = new_comment_id sys (comments w), body = message\<rparr>"] m
        by (simp add: w1)
    next
      case (Some c)
      then show ?thesis
        using find_after_edit [of "comments w" c message] m
        by (auto simp: w1)
    qed
    then obtain c where c: "find ?P (comments w1) = Some c" and b: "body c = message"
      by blast
    from c have "fst (create_comment sys message2 w1) = Inr ()"
      and "api_log w2 = api_log w1 @ requests @
          [GetIssueComment (comment_id c), EditComment (comment_id c) message2]"
      and "map comment_id (comments w2) = map comment_id (comments w1)"
      by (simp_all add: assms(10,11) second map_comment_id_edit)
    with c b show ?thesis by (auto simp: marker_def)
  qed
  from A B C show ?thesis by blast
qed

theorem upsert_comment_witness:
  "comments (snd (create_comment example_sys ''<!-- pipfile-diff -->new''
     (example_world\<lparr>comments :=
        [\<lparr>comment_id = 11, body = ''LGTM''\<rparr>,
         \<lparr>comment_id = 12, body = ''<!-- pipfile-diff -->old''\<rparr>,
         \<lparr>comment_id = 13, body = ''<!-- pipfile-diff -->older''\<rparr>]\<rparr>))) =
     [\<lparr>comment_id = 11, body = ''LGTM''\<rparr>,
      \<lparr>comment_id = 12, body = ''<!-- pipfile-diff -->new''\<rparr>,
      \<lparr>comment_id = 13, body = ''<!-- pipfile-diff -->older''\<rparr>] \<and>
   api_log (snd (create_comment example_sys ''<!-- pipfile-diff -->new''
     (example_world\<lparr>comments :=
        [\<lparr>comment_id = 11, body = ''LGTM''\<rparr>,
         \<lparr>comment_id = 12, body = ''<!-- pipfile-diff -->old''\<rparr>,
         \<lparr>comment_id = 13, body = ''<!-- pipfile-diff -->older''\<rparr>]\<rparr>))) =
     [GetRepo ''token'' ''owner/name'', GetPull 7, GetIssueComments, GetIssueComment 12,
      EditComment 12 ''<!-- pipfile-diff -->new'']"
proof -
  let ?cs = "[\<lparr>comment_id = 11, body = ''LGTM''\<rparr>,
         \<lparr>comment_id = 12, body = ''<!-- pipfile-diff -->old''\<rparr>,
         \<lparr>comment_id = 13, body = ''<!-- pipfile-diff -->older''\<rparr>]"
  let ?w = "example_world\<lparr>comments := ?cs\<rparr>"
  have f: "find (\<lambda>c. prefix ''<!-- pipfile-diff -->'' (body c)) (comments ?w) =
      Some \<lparr>comment_id = 12, body = ''<!-- pipfile-diff -->old''\<rparr>"
    by simp
  have "environ example_sys ''GITHUB_EVENT_PATH'' = Some ''/event.json''"
    and "event_file example_sys ''/event.json'' = Json (map_of [(''number'', 7)])"
    and "map_of [(''number'', 7 :: int)] ''number'' = Some 7"
    and "environ example_sys ''INPUT_REPO-TOKEN'' = Some ''token''"
    and "environ example_sys ''GITHUB_REPOSITORY'' = Some ''owner/name''"
    and "\<forall>call. api_fault example_sys call = None"
    and "\<forall>c \<in> set (comments ?w). comment_id c \<noteq> 0"
    and "\<forall>cs. new_comment_id example_sys cs \<noteq> 0"
    by (simp_all add: example_sys_def)
  from upsert_comment [OF this refl refl refl, of "''<!-- pipfile-diff -->new''" "[]"]
  show ?thesis
    unfolding f by (simp add: example_world_def)
qed

section \<open>Claims about the orchestrator\<close>

text \<open>
  C2. When the mapping parsed at the head revision equals, as a mapping, the one parsed
  at the base revision, the run returns with exit status 0 after the line
  \<open>No dependency changes.\<close>: the world it leaves differs from the one it started in only
  by the working tree and by the lines printed, so no request was sent to the hosting
  service and no comment was created or edited; the diff engine, the renderer and
  \<open>create_comment\<close> have no part in the result.
\<close>

theorem unchanged_short_circuit:
  assumes "environ sys ''GITHUB_BASE_REF'' = Some base_ref"
    and "environ sys ''INPUT_BASE-SHA'' = Some base_sha"
    and "environ sys ''INPUT_HEAD-SHA'' = Some head_sha"
    and "t1 = snd (git sys (checkout_args base_sha) (snd (git sys (fetch_args base_ref) (tree w))))"
    and "t2 = snd (git sys (checkout_args head_sha) t1)"
    and "parse_pipfile_lock (pipfile_lock sys t1) = Inr base_deps"
    and "parse_pipfile_lock (pipfile_lock sys t2) = Inr head_deps"
    and "\<forall>k. dict_get head_deps k = dict_get base_deps k"
  shows "run sys w =
      (Inr (),
       w\<lparr>stdout := stdout w @
            [''Running `git fetch origin --no-tags --prune --unshallow`'',
             ''Checking out base revision '' @ base_sha,
             ''Checking out head revision '' @ head_sha,
             ''No dependency changes.''],
         tree := t2\<rparr>) \<and>
    exit_status (fst (run sys w)) = 0 \<and>
    api_log (snd (run sys w)) = api_log w \<and>
    posted (api_log (snd (run sys w))) = posted (api_log w) \<and>
    comments (snd (run sys w)) = comments w"
proof -
  from assms(6,7) have "wf_dict base_deps" and "wf_dict head_deps"
    by (auto dest: parse_pipfile_lock_wf)
  with assms(8) have eq: "dict_eq head_deps base_deps"
    by (simp add: dict_eq_iff)
  have "run sys w =
      (Inr (),
       w\<lparr>stdout := stdout w @
            [''Running `git fetch origin --no-tags --prune --unshallow`'',
             ''Checking out base revision '' @ base_sha,
             ''Checking out head revision '' @ head_sha,
             ''No dependency changes.''],
         tree := t2\<rparr>)"
    by (subst run_unfold [OF assms(1-5) refl refl]) (simp add: assms(6,7) eq)
  then show ?thesis by (simp add: exit_status_def)
qed

theorem unchanged_short_circuit_witness:
  "run (example_sys\<lparr>pipfile_lock := \<lambda>t. Json example_base_doc\<rparr>) example_world =
     (Inr (),
      \<lparr>tree = ''head'',
       stdout = [''Running `git fetch origin --no-tags --prune --unshallow`'',
                 ''Checking out base revision unknown'',
                 ''Checking out head revision head'',
                 ''No dependency changes.''],
       api_log = [], comments = []\<rparr>)"
proof -
  let ?sys = "example_sys\<lparr>pipfile_lock := \<lambda>t. Json example_base_doc\<rparr>"
  have env: "environ ?sys ''GITHUB_BASE_REF'' = Some ''main''"
    "environ ?sys ''INPUT_BASE-SHA'' = Some ''unknown''"
    "environ ?sys ''INPUT_HEAD-SHA'' = Some ''head''"
    by (simp_all add: example_env)
  have t2: "snd (git ?sys (checkout_args ''head'')
      (snd (git ?sys (checkout_args ''unknown'')
        (snd (git ?sys (fetch_args ''main'') (tree example_world)))))) = ''head''"
    by (simp add: example_trees example_world_def)
  have p: "parse_pipfile_lock (pipfile_lock ?sys t) = Inr [(''foo'', ''1.0.0'')]" for t
    by (simp add: example_parse)
  from unchanged_short_circuit [OF env refl refl p p] t2
  show ?thesis by (simp add: example_world_def)
qed

text \<open>
  C9. When the lockfile of the base revision, or the one of the head revision after a
  base revision that parsed, makes the parser raise, the run ends with that exception
  and exit status 1, and it has sent no request to the hosting service and has created
  or edited no comment. The parser raises \<open>FileNotFoundError\<close> for a missing lockfile,
  \<open>OSError\<close> for one that cannot be read and \<open>JSONDecodeError\<close> for one that is not JSON.
\<close>

theorem parse_failure_aborts:
  assumes "environ sys ''GITHUB_BASE_REF'' = Some base_ref"
    and "environ sys ''INPUT_BASE-SHA'' = Some base_sha"
    and "environ sys ''INPUT_HEAD-SHA'' = Some head_sha"
    and "t1 = snd (git sys (checkout_args base_sha) (snd (git sys (fetch_args base_ref) (tree w))))"
    and "t2 = snd (git sys (checkout_args head_sha) t1)"
    and "parse_pipfile_lock (pipfile_lock sys t1) = Inl e \<or>
         (\<exists>base_deps. parse_pipfile_lock (pipfile_lock sys t1) = Inr base_deps) \<and>
         parse_pipfile_lock (pipfile_lock sys t2) = Inl e"
  shows "fst (run sys w) = Inl e \<and>
    exit_status (fst (run sys w)) = 1 \<and>
    api_log (snd (run sys w)) = api_log w \<and>
    comments (snd (run sys w)) = comments w \<and>
    parse_pipfile_lock NoSuchFile = Inl FileNotFoundError \<and>
    parse_pipfile_lock Unreadable = Inl OSError \<and>
    parse_pipfile_lock NotJson = Inl JSONDecodeError"
proof -
  have files: "parse_pipfile_lock NoSuchFile = Inl FileNotFoundError"
    "parse_pipfile_lock Unreadable = Inl OSError"
    "parse_pipfile_lock NotJson = Inl JSONDecodeError"
    by (simp_all add: parse_pipfile_lock_def load_json_def)
  from assms(6) have "fst (run sys w) = Inl e \<and> api_log (snd (run sys w)) = api_log w \<and>
      comments (snd (run sys w)) = comments w"
    by (subst (1 2 3) run_unfold [OF assms(1-5) refl refl]) auto
  with files show ?thesis by (simp add: exit_status_def)
qed

theorem parse_failure_aborts_witness:
  "pipfile_lock (example_sys\<lparr>pipfile_lock := \<lambda>t. NoSuchFile\<rparr>) ''base'' = NoSuchFile \<and>
   fst (run (example_sys\<lparr>pipfile_lock := \<lambda>t. NoSuchFile\<rparr>) example_world) =
     Inl FileNotFoundError \<and>
   exit_status (fst (run (example_sys\<lparr>pipfile_lock := \<lambda>t. NoSuchFile\<rparr>) example_world)) = 1 \<and>
   api_log (snd (run (example_sys\<lparr>pipfile_lock := \<lambda>t. NoSuchFile\<rparr>) example_world)) = [] \<and>
   comments (snd (run (example_sys\<lparr>pipfile_lock := \<lambda>t. NoSuchFile\<rparr>) example_world)) = [] \<and>
   fst (run (example_sys\<lparr>pipfile_lock :=
       \<lambda>t. if t = ''base'' then Json example_base_doc else NotJson\<rparr>) example_world) =
     Inl JSONDecodeError \<and>
   api_log (snd (run (example_sys\<lparr>pipfile_lock :=
       \<lambda>t. if t = ''base'' then Json example_base_doc else NotJson\<rparr>) example_world)) = []"
proof -
  let ?missing = "example_sys\<lparr>pipfile_lock := \<lambda>t. NoSuchFile\<rparr>"
  let ?broken = "example_sys\<lparr>pipfile_lock :=
      \<lambda>t. if t = ''base'' then Json example_base_doc else NotJson\<rparr>"
  have env: "environ (example_sys\<lparr>pipfile_lock := f\<rparr>) ''GITHUB_BASE_REF'' = Some ''main''"
    "environ (example_sys\<lparr>pipfile_lock := f\<rparr>) ''INPUT_BASE-SHA'' = Some ''unknown''"
    "environ (example_sys\<lparr>pipfile_lock := f\<rparr>) ''INPUT_HEAD-SHA'' = Some ''head''" for f
    by (simp_all add: example_env)
  have t: "snd (git (example_sys\<lparr>pipfile_lock := f\<rparr>) (checkout_args ''unknown'')
        (snd (git (example_sys\<lparr>pipfile_lock := f\<rparr>) (fetch_args ''main'')
          (tree example_world)))) = ''base''"
    "snd (git (example_sys\<lparr>pipfile_lock := f\<rparr>) (checkout_args ''head'') ''base'') = ''head''"
    for f
    by (simp_all add: example_trees example_world_def)
  have m: "parse_pipfile_lock (pipfile_lock ?missing
      (snd (git ?missing (checkout_args ''unknown'')
        (snd (git ?missing (fetch_args ''main'') (tree example_world)))))) =
      Inl FileNotFoundError"
    by (simp add: parse_pipfile_lock_def load_json_def)
  have b: "(\<exists>base_deps. parse_pipfile_lock (pipfile_lock ?broken
      (snd (git ?broken (checkout_args ''unknown'')
        (snd (git ?broken (fetch_args ''main'') (tree example_world)))))) = Inr base_deps) \<and>
    parse_pipfile_lock (pipfile_lock ?broken
      (snd (git ?broken (checkout_args ''head'')
        (snd (git ?broken (checkout_args ''unknown'')
          (snd (git ?broken (fetch_args ''main'') (tree example_world)))))))) =
      Inl JSONDecodeError"
  proof -
    have "parse_pipfile_lock NotJson = Inl JSONDecodeError"
      by (simp add: parse_pipfile_lock_def load_json_def)
    then show ?thesis
      by (simp add: example_trees example_world_def example_parse)
  qed
  from parse_failure_aborts [OF env refl refl disjI1 [OF m]]
    parse_failure_aborts [OF env refl refl disjI2 [OF b]]
  show ?thesis by (simp add: example_world_def exit_status_def)
qed

text \<open>
  C10. When the two mappings differ, at least one of \<open>changed\<close>, \<open>added\<close> and \<open>removed\<close> is
  not empty. So every message that a run asks the hosting service to post, in a new
  comment or in an edited one, has more than the marker and the header: it holds the
  title of at least one of the sections Changed, Added and Removed.
\<close>

theorem posted_message_has_section:
  "(wf_dict base_deps \<and> wf_dict head_deps \<and> \<not> dict_eq head_deps base_deps \<longrightarrow>
      get_changed_deps base_deps head_deps \<noteq> [] \<or>
      get_added_deps base_deps head_deps \<noteq> [] \<or>
      get_removed_deps base_deps head_deps \<noteq> []) \<and>
   (\<exists>calls. api_log (snd (run sys w)) = api_log w @ calls \<and>
      (\<forall>m \<in> set (posted calls).
         m \<noteq> message_header \<and>
         (sublist ''**Changed**'' m \<or> sublist ''**Added**'' m \<or> sublist ''**Removed**'' m)))"
proof (intro conjI impI)
  assume a: "wf_dict base_deps \<and> wf_dict head_deps \<and> \<not> dict_eq head_deps base_deps"
  then have wb: "wf_dict base_deps" and wh: "wf_dict head_deps"
    and ne: "\<not> dict_eq head_deps base_deps"
    by simp_all
  from ne have "\<not> (\<forall>k. dict_get head_deps k = dict_get base_deps k)"
    by (simp add: dict_eq_iff [OF wh wb])
  with wb wh show "get_changed_deps base_deps head_deps \<noteq> [] \<or>
      get_added_deps base_deps head_deps \<noteq> [] \<or>
      get_removed_deps base_deps head_deps \<noteq> []"
    by (rule diff_not_empty)
next
  show "\<exists>calls. api_log (snd (run sys w)) = api_log w @ calls \<and>
      (\<forall>m \<in> set (posted calls).
         m \<noteq> message_header \<and>
         (sublist ''**Changed**'' m \<or> sublist ''**Added**'' m \<or> sublist ''**Removed**'' m))"
    by (rule run_log)
qed

theorem posted_message_has_section_witness:
  "wf_dict [(''foo'', ''1.0.0'')] \<and> wf_dict [(''foo'', ''2.0.0'')] \<and>
   \<not> dict_eq [(''foo'', ''2.0.0'')] [(''foo'', ''1.0.0'')] \<and>
   get_changed_deps [(''foo'', ''1.0.0'')] [(''foo'', ''2.0.0'')] =
     [(''foo'', \<lparr>base = ''1.0.0'', head = ''2.0.0''\<rparr>)] \<and>
   posted (api_log (snd (run example_sys example_world))) = [example_message] \<and>
   example_message \<noteq> message_header \<and>
   sublist ''**Changed**'' example_message"
proof -
  let ?B = "[(''foo'', ''1.0.0'')]"
  let ?H = "[(''foo'', ''2.0.0'')]"
  have hyp: "wf_dict ?B \<and> wf_dict ?H \<and> \<not> dict_eq ?H ?B"
    by (simp add: wf_dict_def dict_eq_def dict_get_def)
  have changed: "get_changed_deps ?B ?H = [(''foo'', \<lparr>base = ''1.0.0'', head = ''2.0.0''\<rparr>)]"
    and rest: "get_added_deps ?B ?H = []" "get_removed_deps ?B ?H = []"
    by (simp_all add: get_changed_deps_def changed_step_def get_added_deps_def
        get_removed_deps_def dict_mem_def dict_get_def dict_set_def)
  have log: "posted (api_log (snd (run example_sys example_world))) = [example_message]"
    by (simp add: example_run)
  have no_other: "\<not> sublist ''**Added**'' example_message"
    "\<not> sublist ''**Removed**'' example_message"
    by (simp_all add: example_message_def sublist_code)
  from posted_message_has_section [of ?B ?H example_sys example_world] hyp
  obtain calls where "api_log (snd (run example_sys example_world)) = api_log example_world @ calls"
    and all: "\<forall>m \<in> set (posted calls).
         m \<noteq> message_header \<and>
         (sublist ''**Changed**'' m \<or> sublist ''**Added**'' m \<or> sublist ''**Removed**'' m)"
    by blast
  then have "posted calls = [example_message]"
    using log by (simp add: example_world_def)
  with all no_other have "example_message \<noteq> message_header"
    and "sublist ''**Changed**'' example_message"
    by auto
  with hyp changed log show ?thesis by blast
qed

text \<open>
  C1, as stated: when the \<open>git fetch\<close> or a \<open>git checkout\<close> exits with a status other
  than 0, the run is aborted with a non-zero exit status and no comment is posted or
  edited. The example run refutes it: the fetch exits with 128 and the checkout of the
  base revision with 1, and the run goes on with the working tree as the two commands
  left it, returns with exit status 0 and has created a comment.
\<close>

theorem vcs_failure_counterexample:
  "fst (git example_sys (fetch_args ''main'') (tree example_world)) = 128 \<and>
   fst (git example_sys (checkout_args ''unknown'') (tree example_world)) = 1 \<and>
   fst (run example_sys example_world) = Inr () \<and>
   exit_status (fst (run example_sys example_world)) = 0 \<and>
   api_log (snd (run example_sys example_world)) =
     [GetRepo ''token'' ''owner/name'', GetPull 7, GetIssueComments,
      CreateIssueComment example_message] \<and>
   comments (snd (run example_sys example_world)) =
     [\<lparr>comment_id = 1, body = example_message\<rparr>]"
  by (simp add: example_run exit_status_def)
    (simp add: example_sys_def example_git_def example_world_def fetch_args_def
      checkout_args_def)

text \<open>
  C1, as amended: the exit status of the \<open>git fetch\<close> and of the two \<open>git checkout\<close>
  commands is not read. A run ends as it would end if every \<open>git\<close> command exited with
  another status and left the same working tree; so a \<open>git\<close> command that fails does
  not by itself abort the run or keep the comment from being posted.
\<close>

theorem git_exit_status_ignored:
  assumes "\<forall>args t. snd (g args t) = snd (git sys args t)"
  shows "run (sys\<lparr>git := g\<rparr>) w = run sys w"
  using assms by (rule run_git)

theorem git_exit_status_ignored_witness:
  "fst (git example_sys (fetch_args ''main'') (tree example_world)) \<noteq> 0 \<and>
   fst (git (example_sys\<lparr>git := \<lambda>args t. (0, snd (git example_sys args t))\<rparr>)
     (fetch_args ''main'') (tree example_world)) = 0 \<and>
   run (example_sys\<lparr>git := \<lambda>args t. (0, snd (git example_sys args t))\<rparr>) example_world =
     run example_sys example_world"
proof -
  have "fst (git example_sys (fetch_args ''main'') (tree example_world)) \<noteq> 0"
    by (simp add: example_sys_def example_git_def fetch_args_def checkout_args_def)
  moreover have "run (example_sys\<lparr>git := \<lambda>args t. (0, snd (git example_sys args t))\<rparr>)
      example_world = run example_sys example_world"
    using git_exit_status_ignored
      [of "\<lambda>args t. (0, snd (git example_sys args t))" example_sys example_world]
    by simp
  ultimately show ?thesis by simp
qed

end
